theory Spec2Isabelle
  imports Main "HOL-Library.Sublist"
begin

section \<open>Python values\<close>

text \<open>
  The handlers pass around what \<^verbatim>\<open>response.json()\<close> returns and build their results
  as dictionaries of such values. A dictionary is an association list read with
  \<^verbatim>\<open>dict.get\<close>; a number is an integer (the code only tests numbers for being zero
  and compares status codes). A string is the list of the bytes of its UTF-8 encoding;
  \<^verbatim>\<open>len(s)\<close> and \<^verbatim>\<open>s[:n]\<close> count characters, that is the bytes that are not
  continuation bytes (\<open>0x80\<close> to \<open>0xBF\<close>). Tests for an ASCII character and for an
  ASCII prefix are the same on the bytes as on the characters.
\<close>

datatype json =
    JNull
  | JBool bool
  | JInt int
  | JStr string
  | JList "json list"
  | JDict "(string \<times> json) list"

type_synonym pydict = "(string \<times> json) list"

definition continuation_byte :: "char \<Rightarrow> bool" where
  "continuation_byte c \<longleftrightarrow> 128 \<le> (of_char c :: nat) \<and> (of_char c :: nat) < 192"

text \<open>\<^verbatim>\<open>len(s)\<close> of a string.\<close>

definition py_len :: "string \<Rightarrow> nat" where
  "py_len s = length (filter (\<lambda>c. \<not> continuation_byte c) s)"

text \<open>\<^verbatim>\<open>s[:n]\<close> of a string: its first \<open>n\<close> characters.\<close>

fun py_take :: "nat \<Rightarrow> string \<Rightarrow> string" where
  "py_take n [] = []"
| "py_take n (c # cs) =
     (if continuation_byte c then c # py_take n cs
      else (case n of 0 \<Rightarrow> [] | Suc k \<Rightarrow> c # py_take k cs))"

text \<open>Truth value of a Python object, as \<^verbatim>\<open>if x\<close>, \<^verbatim>\<open>while x\<close> and \<^verbatim>\<open>not x\<close> read it.\<close>

fun truthy :: "json \<Rightarrow> bool" where
  "truthy JNull = False"
| "truthy (JBool b) = b"
| "truthy (JInt n) = (n \<noteq> 0)"
| "truthy (JStr s) = (s \<noteq> [])"
| "truthy (JList xs) = (xs \<noteq> [])"
| "truthy (JDict kvs) = (kvs \<noteq> [])"

text \<open>\<^verbatim>\<open>d.get(key, default)\<close>; \<^verbatim>\<open>d.get(key)\<close> is \<^verbatim>\<open>d.get(key, None)\<close>.\<close>

definition py_get :: "pydict \<Rightarrow> string \<Rightarrow> json \<Rightarrow> json" where
  "py_get d key dflt = (case map_of d key of None \<Rightarrow> dflt | Some v \<Rightarrow> v)"

fun type_name :: "json \<Rightarrow> string" where
  "type_name JNull = ''NoneType''"
| "type_name (JBool b) = ''bool''"
| "type_name (JInt n) = ''int''"
| "type_name (JStr s) = ''str''"
| "type_name (JList xs) = ''list''"
| "type_name (JDict kvs) = ''dict''"

section \<open>HTTP responses and exceptions\<close>

text \<open>
  A \<^verbatim>\<open>requests.Response\<close>: its status code, its raw text, and what \<^verbatim>\<open>.json()\<close>
  gives: the value, or the message of the JSONDecodeError that it raises when the body
  is not JSON.
  \<open>http_error_msg\<close> is the message that \<^verbatim>\<open>raise_for_status()\<close> of the library
  builds from the status line and the URL.
\<close>

record response =
  status_code :: int
  body_text :: string
  json_body :: "string + json"
  http_error_msg :: string

text \<open>
  Exceptions, by what the handlers look at: \<^verbatim>\<open>requests.exceptions.HTTPError\<close> with its
  message and its \<^verbatim>\<open>response\<close> attribute, any other exception of \<^verbatim>\<open>requests\<close>
  (connection errors, timeouts) with its class name and message, and any other
  Python exception with its class name and message.
\<close>

datatype exn =
    HTTPError string "response option"
  | RequestException string string
  | PyException string string

fun exn_name :: "exn \<Rightarrow> string" where
  "exn_name (HTTPError msg r) = ''HTTPError''"
| "exn_name (RequestException cls msg) = cls"
| "exn_name (PyException cls msg) = cls"

fun exn_str :: "exn \<Rightarrow> string" where
  "exn_str (HTTPError msg r) = msg"
| "exn_str (RequestException cls msg) = msg"
| "exn_str (PyException cls msg) = msg"

definition quoted :: "string \<Rightarrow> string" where
  "quoted s = CHR 0x27 # s @ [CHR 0x27]"

text \<open>The AttributeError of \<^verbatim>\<open>v.attr\<close> on a value that has no such attribute.\<close>

definition AttributeError :: "json \<Rightarrow> string \<Rightarrow> exn" where
  "AttributeError v attr =
     PyException ''AttributeError''
       (quoted (type_name v) @ '' object has no attribute '' @ quoted attr)"

section \<open>Identifier or path: the item resolvers\<close>

text \<open>
  \<^verbatim>\<open>is_likely_id\<close> of \<^verbatim>\<open>_get_item_id_from_path_if_needed\<close> (onedrive_actions.py) and of
  \<^verbatim>\<open>_get_item_id_from_path_if_needed_sp\<close> (sharepoint_actions.py); the two expressions
  are the same.
\<close>

definition is_likely_id :: "string \<Rightarrow> bool" where
  "is_likely_id item_path_or_id \<longleftrightarrow>
     CHR ''!'' \<in> set item_path_or_id
     \<or> (py_len item_path_or_id > 40 \<and> CHR ''/'' \<notin> set item_path_or_id
          \<and> CHR ''.'' \<notin> set item_path_or_id)
     \<or> prefix ''driveItem_'' item_path_or_id"

text \<open>
  The resolvers call a metadata lookup of their module when the input is not taken for
  an ID: \<^verbatim>\<open>_internal_onedrive_get_item_metadata\<close>, respectively \<^verbatim>\<open>get_file_metadata\<close>.
  The lookup is a parameter here: a function of the path that raises or returns a value
  (a result dictionary, when it behaves). The resolvers return the list of the lookups
  they made next to their result, so that an input returned as an assumed ID (no
  lookup) is told from an ID obtained by a lookup. \<open>py_str\<close> is Python's \<^verbatim>\<open>str()\<close>.
\<close>

definition no_id_message :: "string \<Rightarrow> string" where
  "no_id_message item_path_or_id =
     ''No se pudo obtener el ID para el path/item OneDrive '' @ quoted item_path_or_id @ ''.''"

definition get_item_id_from_path_if_needed ::
  "(string \<Rightarrow> exn + json) \<Rightarrow> (json \<Rightarrow> string) \<Rightarrow> string \<Rightarrow> string list \<times> (exn + json)" where
  "get_item_id_from_path_if_needed internal_onedrive_get_item_metadata py_str item_path_or_id =
     (if is_likely_id item_path_or_id then ([], Inr (JStr item_path_or_id))
      else
        ([item_path_or_id],
         case internal_onedrive_get_item_metadata item_path_or_id of
           Inl e \<Rightarrow> Inl e
         | Inr (JDict response) \<Rightarrow>
             (if py_get response ''status'' JNull = JStr ''success'' then
                (case py_get response ''data'' (JDict []) of
                   JDict data \<Rightarrow>
                     (if truthy (py_get data ''id'' JNull) then Inr (py_get data ''id'' JNull)
                      else Inr (JDict [(''status'', JStr ''error''),
                                       (''message'', JStr (no_id_message item_path_or_id)),
                                       (''details'', JStr (py_str (JDict response)))]))
                 | v \<Rightarrow> Inl (AttributeError v ''get''))
              else if py_get response ''status'' JNull = JStr ''error'' then Inr (JDict response)
              else Inr (JDict [(''status'', JStr ''error''),
                               (''message'', JStr (no_id_message item_path_or_id)),
                               (''details'', JStr (py_str (JDict response)))]))
         | Inr v \<Rightarrow> Inl (AttributeError v ''get'')))"

text \<open>
  The SharePoint resolver wraps the lookup in \<^verbatim>\<open>try ... except Exception\<close>, so every
  exception becomes an error dictionary with status 500.
\<close>

definition sp_exception_dict :: "string \<Rightarrow> exn \<Rightarrow> json" where
  "sp_exception_dict item_path_or_id e_meta =
     JDict [(''status'', JStr ''error''),
            (''message'', JStr (''Excepci'' @ [CHR 0xC3, CHR 0xB3] @ ''n obteniendo ID para SP path ''
                                @ quoted item_path_or_id @ '': '' @ exn_str e_meta)),
            (''details'', JStr (exn_str e_meta)),
            (''http_status'', JInt 500)]"

definition get_item_id_from_path_if_needed_sp ::
  "(string \<Rightarrow> exn + json) \<Rightarrow> string \<Rightarrow> string list \<times> json" where
  "get_item_id_from_path_if_needed_sp get_file_metadata item_path_or_id =
     (if is_likely_id item_path_or_id then ([], JStr item_path_or_id)
      else
        ([item_path_or_id],
         case get_file_metadata item_path_or_id of
           Inl e_meta \<Rightarrow> sp_exception_dict item_path_or_id e_meta
         | Inr (JDict item_metadata_response) \<Rightarrow>
             (if py_get item_metadata_response ''status'' JNull = JStr ''success'' then
                (case py_get item_metadata_response ''data'' (JDict []) of
                   JDict item_data \<Rightarrow>
                     (if truthy (py_get item_data ''id'' JNull) then py_get item_data ''id'' JNull
                      else JDict [(''status'', JStr ''error''),
                                  (''message'', JStr (''ID no encontrado para SP path ''
                                                      @ quoted item_path_or_id @ ''.'')),
                                  (''details'', JDict item_data),
                                  (''http_status'', JInt 404)])
                 | v \<Rightarrow> sp_exception_dict item_path_or_id (AttributeError v ''get''))
              else JDict [(''status'', JStr ''error''),
                          (''message'', JStr (''Fallo al obtener metadata para SP path ''
                                              @ quoted item_path_or_id @ ''.'')),
                          (''details'', JDict item_metadata_response),
                          (''http_status'', py_get item_metadata_response ''http_status'' (JInt 500))])
         | Inr v \<Rightarrow> sp_exception_dict item_path_or_id (AttributeError v ''get'')))"

section \<open>The authenticated HTTP client (http_client.py)\<close>

text \<open>
  \<^verbatim>\<open>credential.get_token(*scope)\<close> is a parameter: it raises or returns a token.
  \<^verbatim>\<open>_get_access_token\<close> returns \<^verbatim>\<open>None\<close> for an empty scope and for every exception.
\<close>

definition get_access_token :: "(string list \<Rightarrow> exn + string) \<Rightarrow> string list \<Rightarrow> string option" where
  "get_access_token credential scope =
     (if scope = [] then None
      else case credential scope of Inl e \<Rightarrow> None | Inr token \<Rightarrow> Some token)"

text \<open>
  What \<^verbatim>\<open>session.request\<close> is called with, and the keyword arguments of
  \<^verbatim>\<open>AuthenticatedHttpClient.request\<close> that it looks at (\<open>None\<close>: the key is absent).
\<close>

record ('u, 'q) http_request =
  req_method :: string
  req_url :: 'u
  req_headers :: "string \<rightharpoonup> string"
  req_timeout :: int
  req_params :: "'q option"
  req_json :: "json option"
  req_data :: "string option"

record 'q kwargs =
  kw_headers :: "(string \<rightharpoonup> string) option"
  kw_timeout :: "int option"
  kw_params :: "'q option"
  kw_json :: "json option"
  kw_data :: "string option"

text \<open>
  The ValueError raised when there is no token. Its text holds the scope list as an
  f-string prints it; \<open>py_repr\<close> stands for that \<^verbatim>\<open>str()\<close> of a list of strings.
\<close>

definition no_token_error :: "(string list \<Rightarrow> string) \<Rightarrow> string list \<Rightarrow> exn" where
  "no_token_error py_repr scope =
     PyException ''ValueError''
       (''No se pudo obtener el token de acceso para el scope '' @ py_repr scope @ ''.'')"

text \<open>\<^verbatim>\<open>response.raise_for_status()\<close>: HTTPError for a 4xx or 5xx status.\<close>

definition raise_for_status :: "response \<Rightarrow> exn option" where
  "raise_for_status r =
     (if 400 \<le> status_code r \<and> status_code r < 600
      then Some (HTTPError (http_error_msg r) (Some r)) else None)"

text \<open>
  The body of \<^verbatim>\<open>except requests.exceptions.HTTPError as http_err\<close> builds a log line
  from the error body. It catches JSONDecodeError only, so a JSON body that is not an
  object, or whose \<^verbatim>\<open>error\<close> member is not an object, raises AttributeError there, and
  that exception leaves \<^verbatim>\<open>request\<close> in place of the HTTPError.
\<close>

definition reraise :: "exn \<Rightarrow> exn" where
  "reraise e =
     (case e of
        HTTPError msg None \<Rightarrow> AttributeError JNull ''status_code''
      | HTTPError msg (Some r) \<Rightarrow>
          (case json_body r of
             Inl decode_msg \<Rightarrow> e
           | Inr (JDict error_details_json) \<Rightarrow>
               (case py_get error_details_json ''error'' (JDict []) of
                  JDict error_info \<Rightarrow> e
                | v \<Rightarrow> AttributeError v ''get'')
           | Inr v \<Rightarrow> AttributeError v ''get'')
      | _ \<Rightarrow> e)"

text \<open>
  \<^verbatim>\<open>AuthenticatedHttpClient.request\<close>. \<open>session\<close> is \<^verbatim>\<open>self.session.request\<close>: it
  raises (a transport error) or returns a response. The result is the list of the
  requests handed to the session, and the exception raised or the response returned.
\<close>

definition request ::
  "(string list \<Rightarrow> string) \<Rightarrow> (string list \<Rightarrow> exn + string)
   \<Rightarrow> (('u, 'q) http_request \<Rightarrow> exn + response) \<Rightarrow> int
   \<Rightarrow> string \<Rightarrow> 'u \<Rightarrow> string list \<Rightarrow> 'q kwargs
   \<Rightarrow> ('u, 'q) http_request list \<times> (exn + response)" where
  "request py_repr credential session default_timeout method url scope kwargs =
     (case get_access_token credential scope of
        None \<Rightarrow> ([], Inl (no_token_error py_repr scope))
      | Some access_token \<Rightarrow>
          if access_token = [] then ([], Inl (no_token_error py_repr scope))
          else
            let request_headers = (case kw_headers kwargs of None \<Rightarrow> Map.empty | Some h \<Rightarrow> h);
                request_headers = request_headers(''Authorization'' \<mapsto> ''Bearer '' @ access_token);
                request_headers =
                  (if (kw_json kwargs \<noteq> None \<or> kw_data kwargs \<noteq> None)
                      \<and> request_headers ''Content-Type'' = None
                   then request_headers(''Content-Type'' \<mapsto> ''application/json'')
                   else request_headers);
                timeout = (case kw_timeout kwargs of None \<Rightarrow> default_timeout | Some t \<Rightarrow> t);
                sent = \<lparr>req_method = method, req_url = url, req_headers = request_headers,
                        req_timeout = timeout, req_params = kw_params kwargs,
                        req_json = kw_json kwargs, req_data = kw_data kwargs\<rparr>
            in ([sent],
                case session sent of
                  Inl e \<Rightarrow> Inl (reraise e)
                | Inr response \<Rightarrow>
                    (case raise_for_status response of
                       Some http_err \<Rightarrow> Inl (reraise http_err)
                     | None \<Rightarrow> Inr response)))"

section \<open>The dispatch endpoint (dynamics_actions.py)\<close>

text \<open>A \<^verbatim>\<open>JSONResponse\<close>: the HTTP status it is served with and its content.\<close>

record json_response =
  resp_status :: int
  resp_content :: json

text \<open>
  \<^verbatim>\<open>ErrorResponse\<close> of schemas.py declares \<^verbatim>\<open>message: str\<close>,
  \<^verbatim>\<open>action: Optional[str]\<close>, \<^verbatim>\<open>details: Optional[Union[str, Dict[str, Any], ErrorDetail]]\<close>
  and \<^verbatim>\<open>graph_error_code: Optional[str]\<close>; building it from a value of another type
  raises a validation error. \<^verbatim>\<open>model_dump(exclude_none=True)\<close> drops the \<^verbatim>\<open>None\<close> fields.
\<close>

fun is_str :: "json \<Rightarrow> bool" where
  "is_str (JStr s) = True"
| "is_str v = False"

fun is_dict :: "json \<Rightarrow> bool" where
  "is_dict (JDict d) = True"
| "is_dict v = False"

definition create_error_response :: "int \<Rightarrow> json \<Rightarrow> json \<Rightarrow> json \<Rightarrow> json \<Rightarrow> exn + json_response" where
  "create_error_response status_code_arg action message details graph_error_code =
     (if is_str message \<and> (action = JNull \<or> is_str action)
         \<and> (details = JNull \<or> is_str details \<or> is_dict details)
         \<and> (graph_error_code = JNull \<or> is_str graph_error_code)
      then Inr \<lparr>resp_status = status_code_arg,
                resp_content = JDict (filter (\<lambda>(k, v). v \<noteq> JNull)
                  [(''status'', JStr ''error''), (''action'', action), (''message'', message),
                   (''http_status'', JInt status_code_arg), (''details'', details),
                   (''graph_error_code'', graph_error_code)])\<rparr>
      else Inl (PyException ''ValidationError'' ''validation error for ErrorResponse''))"

text \<open>
  The last \<^verbatim>\<open>except Exception as e\<close> of \<^verbatim>\<open>process_dynamic_action\<close>: status 500 with
  \<^verbatim>\<open>str(e)\<close> as details.
\<close>

definition unhandled_exception_response :: "string \<Rightarrow> exn \<Rightarrow> json_response" where
  "unhandled_exception_response action_name e =
     \<lparr>resp_status = 500,
      resp_content = JDict
        [(''status'', JStr ''error''), (''action'', JStr action_name),
         (''message'', JStr (''Error interno del servidor al ejecutar la acci''
                             @ [CHR 0xC3, CHR 0xB3] @ ''n.'')),
         (''http_status'', JInt 500), (''details'', JStr (exn_str e))]\<rparr>"

text \<open>
  An operand of \<^verbatim>\<open>200 <= x < 300\<close>: an integer (a \<^verbatim>\<open>bool\<close> is one in Python), or a value
  whose comparison with an integer raises TypeError.
\<close>

fun int_operand :: "json \<Rightarrow> int option" where
  "int_operand (JInt n) = Some n"
| "int_operand (JBool b) = Some (if b then 1 else 0)"
| "int_operand v = None"

definition not_comparable :: "json \<Rightarrow> exn" where
  "not_comparable v =
     PyException ''TypeError''
       (quoted ''<='' @ '' not supported between instances of '' @ quoted ''int'' @ '' and ''
        @ quoted (type_name v))"

text \<open>
  The branch \<^verbatim>\<open>elif isinstance(result, dict)\<close> of \<^verbatim>\<open>process_dynamic_action\<close>, inside
  its \<^verbatim>\<open>try\<close>: the response served for the dictionary that the action returned.
\<close>

definition dict_result_response :: "string \<Rightarrow> pydict \<Rightarrow> json_response" where
  "dict_result_response action_name result =
     (if py_get result ''status'' JNull = JStr ''error'' then
        (case int_operand (py_get result ''http_status'' (JInt 500)) of
           None \<Rightarrow> unhandled_exception_response action_name
                     (not_comparable (py_get result ''http_status'' (JInt 500)))
         | Some c \<Rightarrow>
             let error_status_code = (if 200 \<le> c \<and> c < 300 then 500 else c)
             in case create_error_response error_status_code (JStr action_name)
                       (py_get result ''message''
                          (JStr (''Error desconocido en la acci'' @ [CHR 0xC3, CHR 0xB3] @ ''n.'')))
                       (py_get result ''details'' JNull)
                       (py_get result ''graph_error_code'' JNull) of
                  Inl e \<Rightarrow> unhandled_exception_response action_name e
                | Inr r \<Rightarrow> r)
      else
        (case int_operand (py_get result ''http_status'' (JInt 200)) of
           None \<Rightarrow> unhandled_exception_response action_name
                     (not_comparable (py_get result ''http_status'' (JInt 200)))
         | Some c \<Rightarrow>
             let success_status_code = (if \<not> (200 \<le> c \<and> c < 300) then 200 else c)
             in \<lparr>resp_status = success_status_code, resp_content = JDict result\<rparr>))"

definition is_2xx :: "int \<Rightarrow> bool" where
  "is_2xx c \<longleftrightarrow> 200 \<le> c \<and> c < 300"

section \<open>Paginated fetch\<close>

text \<open>
  The paging helpers call \<^verbatim>\<open>client.get(url=..., scope=..., params=...)\<close> once in each
  round of their loop. A call is the pair of the URL and the parameters passed. The
  client is a function of the ordinal of the call (1 for the first) and of the call, so
  that upstream may answer the same URL differently at different times; it raises or
  returns a response. The helpers return the list of the calls they made next to their
  result. \<open>max_pages\<close> stands for \<^verbatim>\<open>getattr(settings, 'MAX_PAGING_PAGES', ...)\<close>.
\<close>

type_synonym 'q get_call = "json \<times> 'q option"
type_synonym 'q client = "nat \<Rightarrow> 'q get_call \<Rightarrow> exn + response"

text \<open>\<^verbatim>\<open>max_items_total is None or len(all_items) < max_items_total\<close>\<close>

definition below_cap :: "int option \<Rightarrow> json list \<Rightarrow> bool" where
  "below_cap max_items_total all_items =
     (case max_items_total of None \<Rightarrow> True | Some m \<Rightarrow> int (length all_items) < m)"

text \<open>The \<^verbatim>\<open>for item in page_items\<close> loop: append while below the cap, else break.\<close>

fun append_items :: "int option \<Rightarrow> json list \<Rightarrow> json list \<Rightarrow> json list" where
  "append_items max_items_total all_items [] = all_items"
| "append_items max_items_total all_items (item # page_items) =
     (if below_cap max_items_total all_items
      then append_items max_items_total (all_items @ [item]) page_items
      else all_items)"

definition JSONDecodeError :: "string \<Rightarrow> exn" where
  "JSONDecodeError msg = PyException ''JSONDecodeError'' msg"

subsection \<open>\<^verbatim>\<open>_sp_paged_request\<close> (sharepoint_actions.py)\<close>

text \<open>
  The \<^verbatim>\<open>while\<close> loop, as a function of its local variables \<^verbatim>\<open>current_url\<close>,
  \<^verbatim>\<open>all_items\<close> and \<^verbatim>\<open>page_count\<close> and of the calls made so far. It ends with the
  exception raised inside it, or with \<^verbatim>\<open>all_items\<close> and \<^verbatim>\<open>page_count\<close>.
\<close>

function sp_paged_loop ::
  "'q client \<Rightarrow> string \<Rightarrow> 'q \<Rightarrow> int option \<Rightarrow> int \<Rightarrow> json \<Rightarrow> json list \<Rightarrow> nat
   \<Rightarrow> 'q get_call list \<Rightarrow> 'q get_call list \<times> (exn + json list \<times> nat)" where
  "sp_paged_loop client url_base query_api_params_initial max_items_total max_pages_to_fetch
      current_url all_items page_count calls =
     (if truthy current_url \<and> below_cap max_items_total all_items
         \<and> int page_count < max_pages_to_fetch
      then
        let page_count' = Suc page_count;
            is_first_call = (page_count' = 1);
            current_params = (if is_first_call \<and> current_url = JStr url_base
                              then Some query_api_params_initial else None);
            calls' = calls @ [(current_url, current_params)]
        in case client page_count' (current_url, current_params) of
             Inl e \<Rightarrow> (calls', Inl e)
           | Inr response \<Rightarrow>
               (case json_body response of
                  Inl decode_msg \<Rightarrow> (calls', Inl (JSONDecodeError decode_msg))
                | Inr (JDict response_data) \<Rightarrow>
                    (case py_get response_data ''value'' (JList []) of
                       JList page_items \<Rightarrow>
                         let all_items' = append_items max_items_total all_items page_items;
                             current_url' = py_get response_data ''@odata.nextLink'' JNull
                         in if \<not> truthy current_url' \<or> \<not> below_cap max_items_total all_items'
                            then (calls', Inr (all_items', page_count'))
                            else sp_paged_loop client url_base query_api_params_initial
                                   max_items_total max_pages_to_fetch
                                   current_url' all_items' page_count' calls'
                     | page_items \<Rightarrow> (calls', Inr (all_items, page_count')))
                | Inr response_data \<Rightarrow> (calls', Inl (AttributeError response_data ''get'')))
      else (calls, Inr (all_items, page_count)))"
  by pat_completeness auto
termination
  by (relation "measure (\<lambda>(client, url_base, q, max_items_total, max_pages_to_fetch,
        current_url, all_items, page_count, calls). nat (max_pages_to_fetch - int page_count))")
    auto

declare sp_paged_loop.simps [simp del]

text \<open>The dictionary that every \<^verbatim>\<open>_handle_..._api_error\<close> returns.\<close>

definition error_dict :: "string \<Rightarrow> string \<Rightarrow> int \<Rightarrow> json \<Rightarrow> json \<Rightarrow> json" where
  "error_dict action_name message status_code_arg details graph_error_code =
     JDict [(''status'', JStr ''error''), (''action'', JStr action_name),
            (''message'', JStr message), (''http_status'', JInt status_code_arg),
            (''details'', details), (''graph_error_code'', graph_error_code)]"

text \<open>
  \<^verbatim>\<open>_handle_graph_api_error\<close> (its logging left out). Like the client it catches
  JSONDecodeError only, so it raises AttributeError on an error body that is JSON but
  has no object where it reads one.
\<close>

definition handle_graph_api_error :: "exn \<Rightarrow> string \<Rightarrow> exn + json" where
  "handle_graph_api_error e action_name =
     (let message = ''Error ejecutando '' @ action_name @ '': '' @ exn_name e in
      case e of
        HTTPError msg (Some r) \<Rightarrow>
          (case json_body r of
             Inl decode_msg \<Rightarrow>
               Inr (error_dict action_name message (status_code r) (JStr (body_text r)) JNull)
           | Inr (JDict error_data) \<Rightarrow>
               (case py_get error_data ''error'' (JDict []) of
                  JDict error_info \<Rightarrow>
                    Inr (error_dict action_name message (status_code r)
                           (py_get error_info ''message'' (JStr (body_text r)))
                           (py_get error_info ''code'' JNull))
                | v \<Rightarrow> Inl (AttributeError v ''get''))
           | Inr v \<Rightarrow> Inl (AttributeError v ''get''))
      | _ \<Rightarrow> Inr (error_dict action_name message 500 (JStr (exn_str e)) JNull))"

definition sp_success :: "json list \<Rightarrow> nat \<Rightarrow> json" where
  "sp_success all_items page_count =
     JDict [(''status'', JStr ''success''),
            (''data'', JDict [(''value'', JList all_items),
                              (''@odata.count'', JInt (int (length all_items)))]),
            (''total_retrieved'', JInt (int (length all_items))),
            (''pages_processed'', JInt (int page_count))]"

text \<open>
  The end of \<^verbatim>\<open>_sp_paged_request\<close>: the \<^verbatim>\<open>return\<close> after the loop, and the
  \<^verbatim>\<open>except Exception\<close> clause for an exception raised in the loop (the handler may raise
  in its turn).
\<close>

definition sp_result ::
  "string \<Rightarrow> 'c list \<times> (exn + json list \<times> nat) \<Rightarrow> 'c list \<times> (exn + json)" where
  "sp_result action_name_for_log outcome =
     (case outcome of
        (calls, Inr (all_items, page_count)) \<Rightarrow> (calls, Inr (sp_success all_items page_count))
      | (calls, Inl e) \<Rightarrow> (calls, handle_graph_api_error e action_name_for_log))"

definition sp_paged_request ::
  "'q client \<Rightarrow> string \<Rightarrow> 'q \<Rightarrow> int option \<Rightarrow> int \<Rightarrow> string
   \<Rightarrow> 'q get_call list \<times> (exn + json)" where
  "sp_paged_request client url_base query_api_params_initial max_items_total max_pages_to_fetch
      action_name_for_log =
     sp_result action_name_for_log
       (sp_paged_loop client url_base query_api_params_initial max_items_total
          max_pages_to_fetch (JStr url_base) [] 0 [])"

subsection \<open>\<^verbatim>\<open>_onedrive_paged_request\<close> (onedrive_actions.py)\<close>

text \<open>
  Here \<^verbatim>\<open>max_items_total\<close> is an \<^verbatim>\<open>int\<close>, never \<^verbatim>\<open>None\<close>, and each round logs
  \<^verbatim>\<open>current_url.split('?')[0]\<close> before the call, which raises AttributeError when the
  cursor taken from the last response is not a string. The \<^verbatim>\<open>for\<close> loop is
  \<open>append_items\<close> with the cap present.
\<close>

function onedrive_paged_loop ::
  "'q client \<Rightarrow> string \<Rightarrow> 'q \<Rightarrow> int \<Rightarrow> int \<Rightarrow> json \<Rightarrow> json list \<Rightarrow> nat
   \<Rightarrow> 'q get_call list \<Rightarrow> 'q get_call list \<times> (exn + json list \<times> nat)" where
  "onedrive_paged_loop client url_base query_api_params_initial max_items_total max_pages
      current_url all_items page_count calls =
     (if truthy current_url \<and> int (length all_items) < max_items_total
         \<and> int page_count < max_pages
      then
        let page_count' = Suc page_count;
            is_first_call = (current_url = JStr url_base \<and> page_count' = 1)
        in if \<not> is_str current_url then (calls, Inl (AttributeError current_url ''split''))
           else
             let current_params = (if is_first_call then Some query_api_params_initial else None);
                 calls' = calls @ [(current_url, current_params)]
             in case client page_count' (current_url, current_params) of
                  Inl e \<Rightarrow> (calls', Inl e)
                | Inr response \<Rightarrow>
                    (case json_body response of
                       Inl decode_msg \<Rightarrow> (calls', Inl (JSONDecodeError decode_msg))
                     | Inr (JDict response_data) \<Rightarrow>
                         (case py_get response_data ''value'' (JList []) of
                            JList page_items \<Rightarrow>
                              let all_items' = append_items (Some max_items_total) all_items page_items;
                                  current_url' = py_get response_data ''@odata.nextLink'' JNull
                              in if \<not> truthy current_url'
                                    \<or> int (length all_items') \<ge> max_items_total
                                 then (calls', Inr (all_items', page_count'))
                                 else onedrive_paged_loop client url_base query_api_params_initial
                                        max_items_total max_pages
                                        current_url' all_items' page_count' calls'
                          | page_items \<Rightarrow> (calls', Inr (all_items, page_count')))
                     | Inr response_data \<Rightarrow> (calls', Inl (AttributeError response_data ''get'')))
      else (calls, Inr (all_items, page_count)))"
  by pat_completeness auto
termination
  by (relation "measure (\<lambda>(client, url_base, q, max_items_total, max_pages,
        current_url, all_items, page_count, calls). nat (max_pages - int page_count))")
    auto

declare onedrive_paged_loop.simps [simp del]

text \<open>\<^verbatim>\<open>_handle_onedrive_api_error\<close> (its logging left out).\<close>

definition handle_onedrive_api_error :: "exn \<Rightarrow> string \<Rightarrow> exn + json" where
  "handle_onedrive_api_error e action_name =
     (let message = ''Error en '' @ action_name @ '': '' @ exn_name e in
      case e of
        HTTPError msg (Some r) \<Rightarrow>
          (case json_body r of
             Inl decode_msg \<Rightarrow>
               Inr (error_dict action_name message (status_code r) (JStr (body_text r)) JNull)
           | Inr (JDict error_data) \<Rightarrow>
               (case py_get error_data ''error'' (JDict []) of
                  JDict error_info \<Rightarrow>
                    Inr (error_dict action_name message (status_code r)
                           (py_get error_info ''message'' (JStr (body_text r)))
                           (py_get error_info ''code'' JNull))
                | v \<Rightarrow> Inl (AttributeError v ''get''))
           | Inr v \<Rightarrow> Inl (AttributeError v ''get''))
      | _ \<Rightarrow> Inr (error_dict action_name message 500 (JStr (exn_str e)) JNull))"

definition onedrive_success :: "json list \<Rightarrow> nat \<Rightarrow> json" where
  "onedrive_success all_items page_count =
     JDict [(''status'', JStr ''success''), (''data'', JList all_items),
            (''total_retrieved'', JInt (int (length all_items))),
            (''pages_processed'', JInt (int page_count))]"

definition onedrive_result ::
  "string \<Rightarrow> 'c list \<times> (exn + json list \<times> nat) \<Rightarrow> 'c list \<times> (exn + json)" where
  "onedrive_result action_name_for_log outcome =
     (case outcome of
        (calls, Inr (all_items, page_count)) \<Rightarrow> (calls, Inr (onedrive_success all_items page_count))
      | (calls, Inl e) \<Rightarrow> (calls, handle_onedrive_api_error e action_name_for_log))"

definition onedrive_paged_request ::
  "'q client \<Rightarrow> string \<Rightarrow> 'q \<Rightarrow> int \<Rightarrow> int \<Rightarrow> string
   \<Rightarrow> 'q get_call list \<times> (exn + json)" where
  "onedrive_paged_request client url_base query_api_params_initial max_items_total max_pages
      action_name_for_log =
     onedrive_result action_name_for_log
       (onedrive_paged_loop client url_base query_api_params_initial max_items_total
          max_pages (JStr url_base) [] 0 [])"

subsection \<open>\<^verbatim>\<open>_email_paged_request\<close> (correo_actions.py)\<close>

text \<open>
  The loop of \<^verbatim>\<open>_sp_paged_request\<close> with an optional cap, and the logging of
  \<^verbatim>\<open>current_url.split('?')[0]\<close> before the call as in the OneDrive helper.
\<close>

function email_paged_loop ::
  "'q client \<Rightarrow> string \<Rightarrow> 'q \<Rightarrow> int option \<Rightarrow> int \<Rightarrow> json \<Rightarrow> json list \<Rightarrow> nat
   \<Rightarrow> 'q get_call list \<Rightarrow> 'q get_call list \<times> (exn + json list \<times> nat)" where
  "email_paged_loop client url_base query_api_params_initial max_items_total max_pages_to_fetch
      current_url all_items page_count calls =
     (if truthy current_url \<and> below_cap max_items_total all_items
         \<and> int page_count < max_pages_to_fetch
      then
        let page_count' = Suc page_count;
            is_first_call = (current_url = JStr url_base \<and> page_count' = 1);
            current_params_for_call = (if is_first_call then Some query_api_params_initial else None)
        in if \<not> is_str current_url then (calls, Inl (AttributeError current_url ''split''))
           else
             let calls' = calls @ [(current_url, current_params_for_call)]
             in case client page_count' (current_url, current_params_for_call) of
                  Inl e \<Rightarrow> (calls', Inl e)
                | Inr response \<Rightarrow>
                    (case json_body response of
                       Inl decode_msg \<Rightarrow> (calls', Inl (JSONDecodeError decode_msg))
                     | Inr (JDict response_data) \<Rightarrow>
                         (case py_get response_data ''value'' (JList []) of
                            JList page_items \<Rightarrow>
                              let all_items' = append_items max_items_total all_items page_items;
                                  current_url' = py_get response_data ''@odata.nextLink'' JNull
                              in if \<not> truthy current_url' \<or> \<not> below_cap max_items_total all_items'
                                 then (calls', Inr (all_items', page_count'))
                                 else email_paged_loop client url_base query_api_params_initial
                                        max_items_total max_pages_to_fetch
                                        current_url' all_items' page_count' calls'
                          | page_items \<Rightarrow> (calls', Inr (all_items, page_count')))
                     | Inr response_data \<Rightarrow> (calls', Inl (AttributeError response_data ''get'')))
      else (calls, Inr (all_items, page_count)))"
  by pat_completeness auto
termination
  by (relation "measure (\<lambda>(client, url_base, q, max_items_total, max_pages_to_fetch,
        current_url, all_items, page_count, calls). nat (max_pages_to_fetch - int page_count))")
    auto

declare email_paged_loop.simps [simp del]

text \<open>
  \<^verbatim>\<open>_handle_email_api_error\<close> (its logging left out); for a body that is not JSON the
  details are the first 500 characters of the text, or a fixed text when it is empty.
\<close>

definition handle_email_api_error :: "exn \<Rightarrow> string \<Rightarrow> exn + json" where
  "handle_email_api_error e action_name =
     (let message = ''Error en '' @ action_name @ '': '' @ exn_name e in
      case e of
        HTTPError msg (Some r) \<Rightarrow>
          (case json_body r of
             Inl decode_msg \<Rightarrow>
               Inr (error_dict action_name message (status_code r)
                      (JStr (if body_text r \<noteq> [] then py_take 500 (body_text r)
                             else ''No response body'')) JNull)
           | Inr (JDict error_data) \<Rightarrow>
               (case py_get error_data ''error'' (JDict []) of
                  JDict error_info \<Rightarrow>
                    Inr (error_dict action_name message (status_code r)
                           (py_get error_info ''message'' (JStr (body_text r)))
                           (py_get error_info ''code'' JNull))
                | v \<Rightarrow> Inl (AttributeError v ''get''))
           | Inr v \<Rightarrow> Inl (AttributeError v ''get''))
      | _ \<Rightarrow> Inr (error_dict action_name message 500 (JStr (exn_str e)) JNull))"

definition email_result ::
  "string \<Rightarrow> 'c list \<times> (exn + json list \<times> nat) \<Rightarrow> 'c list \<times> (exn + json)" where
  "email_result action_name_for_log outcome =
     (case outcome of
        (calls, Inr (all_items, page_count)) \<Rightarrow> (calls, Inr (sp_success all_items page_count))
      | (calls, Inl e) \<Rightarrow> (calls, handle_email_api_error e action_name_for_log))"

definition email_paged_request ::
  "'q client \<Rightarrow> string \<Rightarrow> 'q \<Rightarrow> int option \<Rightarrow> int \<Rightarrow> string
   \<Rightarrow> 'q get_call list \<times> (exn + json)" where
  "email_paged_request client url_base query_api_params_initial max_items_total max_pages_to_fetch
      action_name_for_log =
     email_result action_name_for_log
       (email_paged_loop client url_base query_api_params_initial max_items_total
          max_pages_to_fetch (JStr url_base) [] 0 [])"

subsection \<open>The paging helpers over the authenticated client\<close>

text \<open>
  \<^verbatim>\<open>client.get(url=current_url, scope=scope, params=current_params)\<close> is
  \<^verbatim>\<open>request('GET', url, scope, params=current_params)\<close>. The credential and the session
  may behave differently at each call.
\<close>

definition authenticated_get ::
  "(string list \<Rightarrow> string) \<Rightarrow> (nat \<Rightarrow> string list \<Rightarrow> exn + string)
   \<Rightarrow> (nat \<Rightarrow> (json, 'q) http_request \<Rightarrow> exn + response)
   \<Rightarrow> int \<Rightarrow> string list \<Rightarrow> 'q client" where
  "authenticated_get py_repr credential session default_timeout scope k call =
     snd (request py_repr (credential k) (session k) default_timeout ''GET'' (fst call) scope
            \<lparr>kw_headers = None, kw_timeout = None, kw_params = snd call,
             kw_json = None, kw_data = None\<rparr>)"

subsection \<open>Upstream behaviours used in the statements\<close>

text \<open>
  A page response: the client returns a response whose body is a JSON object, and the
  cursor in it, when there is one, is a string.
\<close>

definition page_response :: "exn + response \<Rightarrow> bool" where
  "page_response outcome =
     (case outcome of
        Inl e \<Rightarrow> False
      | Inr r \<Rightarrow>
          (case json_body r of
             Inr (JDict d) \<Rightarrow>
               \<not> truthy (py_get d ''@odata.nextLink'' JNull)
               \<or> is_str (py_get d ''@odata.nextLink'' JNull)
           | _ \<Rightarrow> False))"

text \<open>A client that answers every call with one item and one more cursor.\<close>

definition endless_client :: "unit client" where
  "endless_client k call =
     Inr \<lparr>status_code = 200, body_text = [],
          json_body = Inr (JDict [(''value'', JList [JInt (int k)]),
                                  (''@odata.nextLink'', JStr ''next'')]),
          http_error_msg = []\<rparr>"

text \<open>A client whose every page has three items and one more cursor.\<close>

definition big_page_client :: "unit client" where
  "big_page_client k call =
     Inr \<lparr>status_code = 200, body_text = [],
          json_body = Inr (JDict [(''value'', JList [JInt 1, JInt 2, JInt 3]),
                                  (''@odata.nextLink'', JStr ''next'')]),
          http_error_msg = []\<rparr>"

text \<open>\<^verbatim>\<open>isinstance(v, list)\<close>\<close>

fun is_list :: "json \<Rightarrow> bool" where
  "is_list (JList xs) = True"
| "is_list v = False"

text \<open>
  The items of one page subject to the item cap: its \<^verbatim>\<open>value\<close> list (empty when the
  field is absent or not a list), cut to the first \<open>N\<close> items when the cap is \<open>N\<close>.
\<close>

definition single_page_items :: "int option \<Rightarrow> pydict \<Rightarrow> json list" where
  "single_page_items max_items_total d =
     (case py_get d ''value'' (JList []) of
        JList page_items \<Rightarrow>
          (case max_items_total of None \<Rightarrow> page_items | Some N \<Rightarrow> take (nat N) page_items)
      | v \<Rightarrow> [])"

text \<open>A response with status 200 whose body is the given JSON object.\<close>

definition json_page :: "pydict \<Rightarrow> exn + response" where
  "json_page d = Inr \<lparr>status_code = 200, body_text = [], json_body = Inr (JDict d), http_error_msg = []\<rparr>"

text \<open>Clients for the examples: a second page whose \<^verbatim>\<open>value\<close> is a string, a first page
  without \<^verbatim>\<open>value\<close> but with a cursor, and a single page of three items.\<close>

definition bad_second_page_client :: "unit client" where
  "bad_second_page_client k call =
     (if k = 1 then json_page [(''value'', JList [JInt 1]), (''@odata.nextLink'', JStr ''next'')]
      else json_page [(''value'', JStr ''oops''), (''@odata.nextLink'', JStr ''more'')])"

definition no_value_client :: "unit client" where
  "no_value_client k call =
     (if k = 1 then json_page [(''@odata.nextLink'', JStr ''next'')]
      else json_page [(''value'', JList [JInt 7])])"

definition single_page_client :: "unit client" where
  "single_page_client k call = json_page [(''value'', JList [JInt 1, JInt 2, JInt 3])]"

text \<open>
  A list of calls follows the cursors, \<open>k\<close> being the ordinal of its first call: every call
  after the first passes no parameters, and its URL is the value of \<^verbatim>\<open>@odata.nextLink\<close>
  in the JSON object that the client returned for the call before it.
\<close>

fun cursor_chain :: "'q client \<Rightarrow> nat \<Rightarrow> 'q get_call list \<Rightarrow> bool" where
  "cursor_chain client k (c # c' # cs) =
     (snd c' = None
      \<and> (case client k c of
            Inl e \<Rightarrow> False
          | Inr r \<Rightarrow>
              (case json_body r of
                 Inr (JDict d) \<Rightarrow> map_of d ''@odata.nextLink'' = Some (fst c')
               | _ \<Rightarrow> False))
      \<and> cursor_chain client (Suc k) (c' # cs))"
| "cursor_chain client k cs = True"

text \<open>
  The HTTP status that upstream answered with, for an HTTPError that carries its response
  (500 for any other exception), and the error message of upstream: the \<^verbatim>\<open>message\<close>
  member of the \<^verbatim>\<open>error\<close> object of the body when there is one, else the raw body; for an
  exception without response, its text.
\<close>

definition upstream_status :: "exn \<Rightarrow> int" where
  "upstream_status e = (case e of HTTPError msg (Some r) \<Rightarrow> status_code r | _ \<Rightarrow> 500)"

definition upstream_message :: "exn \<Rightarrow> json" where
  "upstream_message e =
     (case e of
        HTTPError msg (Some r) \<Rightarrow>
          (case json_body r of
             Inr (JDict error_data) \<Rightarrow>
               (case map_of error_data ''error'' of
                  Some (JDict error_info) \<Rightarrow>
                    (case map_of error_info ''message'' of
                       Some message \<Rightarrow> message
                     | None \<Rightarrow> JStr (body_text r))
                | _ \<Rightarrow> JStr (body_text r))
           | _ \<Rightarrow> JStr (body_text r))
      | _ \<Rightarrow> JStr (exn_str e))"

text \<open>A key of a result dictionary.\<close>

fun dict_lookup :: "json \<Rightarrow> string \<Rightarrow> json option" where
  "dict_lookup (JDict d) key = map_of d key"
| "dict_lookup v key = None"

text \<open>
  A 401 answer whose body is the JSON object \<^verbatim>\<open>{"error": "invalid_grant"}\<close>: its \<^verbatim>\<open>error\<close>
  member is a string, not an object. And a session that answers the first request with a
  page of one item and a cursor, and every later request with that 401.
\<close>

definition invalid_grant_response :: response where
  "invalid_grant_response =
     \<lparr>status_code = 401,
      body_text = ''{'' @ [CHR 0x22] @ ''error'' @ [CHR 0x22] @ '': '' @ [CHR 0x22] @ ''invalid_grant''
                    @ [CHR 0x22] @ ''}'',
      json_body = Inr (JDict [(''error'', JStr ''invalid_grant'')]),
      http_error_msg = ''401 Client Error''\<rparr>"

definition invalid_grant_session :: "nat \<Rightarrow> (json, unit) http_request \<Rightarrow> exn + response" where
  "invalid_grant_session k sent =
     (if k = 1 then json_page [(''value'', JList [JInt 1]), (''@odata.nextLink'', JStr ''next'')]
      else Inr invalid_grant_response)"

section \<open>Theorems\<close>

subsection \<open>Auxiliary lemmas on the paging loops\<close>

lemma length_append_items_le:
  "int (length all_items) \<le> N \<Longrightarrow> int (length (append_items (Some N) all_items page_items)) \<le> N"
  by (induction page_items arbitrary: all_items) (auto simp: below_cap_def)

lemma sp_loop_calls_bound:
  "length calls = page_count \<Longrightarrow> int page_count \<le> P \<Longrightarrow>
   sp_paged_loop client url q m P cur all_items page_count calls = (calls', r) \<Longrightarrow>
   int (length calls') \<le> P \<and> (\<forall>items pc. r = Inr (items, pc) \<longrightarrow> pc = length calls')"
proof (induction client url q m P cur all_items page_count calls rule: sp_paged_loop.induct)
  case (1 client url q m P cur all_items page_count calls)
  from "1.prems" "1.IH" show ?case
    by (subst (asm) sp_paged_loop.simps)
      (auto simp: Let_def split: if_splits sum.splits json.splits)
qed

lemma email_loop_calls_bound:
  "length calls = page_count \<Longrightarrow> int page_count \<le> P \<Longrightarrow>
   email_paged_loop client url q m P cur all_items page_count calls = (calls', r) \<Longrightarrow>
   int (length calls') \<le> P \<and> (\<forall>items pc. r = Inr (items, pc) \<longrightarrow> pc = length calls')"
proof (induction client url q m P cur all_items page_count calls rule: email_paged_loop.induct)
  case (1 client url q m P cur all_items page_count calls)
  from "1.prems" "1.IH" show ?case
    by (subst (asm) email_paged_loop.simps)
      (auto simp: Let_def split: if_splits sum.splits json.splits)
qed

lemma onedrive_loop_calls_bound:
  "length calls = page_count \<Longrightarrow> int page_count \<le> P \<Longrightarrow>
   onedrive_paged_loop client url q N P cur all_items page_count calls = (calls', r) \<Longrightarrow>
   int (length calls') \<le> P \<and> (\<forall>items pc. r = Inr (items, pc) \<longrightarrow> pc = length calls')"
proof (induction client url q N P cur all_items page_count calls rule: onedrive_paged_loop.induct)
  case (1 client url q N P cur all_items page_count calls)
  from "1.prems" "1.IH" show ?case
    by (subst (asm) onedrive_paged_loop.simps)
      (auto simp: Let_def split: if_splits sum.splits json.splits)
qed

lemma sp_success_inject:
  "sp_success items pages = sp_success items' pages' \<longleftrightarrow> items = items' \<and> pages = pages'"
  by (auto simp: sp_success_def)

lemma handle_graph_api_error_cases:
  "(\<exists>ex. handle_graph_api_error e a = Inl ex)
   \<or> (\<exists>msg c d g. handle_graph_api_error e a = Inr (error_dict a msg c d g))"
  by (cases e) (auto simp add: handle_graph_api_error_def Let_def
      split: option.split sum.split json.split)

lemma handle_email_api_error_cases:
  "(\<exists>ex. handle_email_api_error e a = Inl ex)
   \<or> (\<exists>msg c d g. handle_email_api_error e a = Inr (error_dict a msg c d g))"
  by (cases e) (auto simp add: handle_email_api_error_def Let_def
      split: option.split sum.split json.split)

lemma handle_onedrive_api_error_cases:
  "(\<exists>ex. handle_onedrive_api_error e a = Inl ex)
   \<or> (\<exists>msg c d g. handle_onedrive_api_error e a = Inr (error_dict a msg c d g))"
  by (cases e) (auto simp add: handle_onedrive_api_error_def Let_def
      split: option.split sum.split json.split)

lemma error_dict_not_success:
  "error_dict a msg c d g \<noteq> sp_success items pages"
  "error_dict a msg c d g \<noteq> onedrive_success items pages"
  by (simp_all add: error_dict_def sp_success_def onedrive_success_def)

lemma sp_success_not_error:
  "handle_graph_api_error e a \<noteq> Inr (sp_success items pages)"
  "handle_email_api_error e a \<noteq> Inr (sp_success items pages)"
  using handle_graph_api_error_cases [of e a] handle_email_api_error_cases [of e a]
    error_dict_not_success(1) [of a _ _ _ _ items pages]
  by auto

lemma onedrive_success_inject:
  "onedrive_success items pages = onedrive_success items' pages' \<longleftrightarrow> items = items' \<and> pages = pages'"
  by (auto simp: onedrive_success_def)

lemma onedrive_success_not_error:
  "handle_onedrive_api_error e a \<noteq> Inr (onedrive_success items pages)"
  using handle_onedrive_api_error_cases [of e a]
    error_dict_not_success(2) [of a _ _ _ _ items pages]
  by auto

lemma sp_request_calls_bound:
  assumes "0 \<le> P"
  shows "int (length (fst (sp_paged_request client url q m P a))) \<le> P
     \<and> (\<forall>items pages. snd (sp_paged_request client url q m P a) = Inr (sp_success items pages)
          \<longrightarrow> pages = length (fst (sp_paged_request client url q m P a)) \<and> int pages \<le> P)"
proof -
  obtain calls r where loop: "sp_paged_loop client url q m P (JStr url) [] 0 [] = (calls, r)"
    by (cases "sp_paged_loop client url q m P (JStr url) [] 0 []")
  have bound: "int (length calls) \<le> P" and pages: "\<And>items pc. r = Inr (items, pc) \<Longrightarrow> pc = length calls"
    using sp_loop_calls_bound [OF _ _ loop] assms by simp_all
  show ?thesis
  proof (cases r)
    case (Inl e)
    then have "sp_paged_request client url q m P a = (calls, handle_graph_api_error e a)"
      by (simp add: sp_paged_request_def sp_result_def loop)
    then show ?thesis using bound sp_success_not_error(1) [of e a] by simp
  next
    case (Inr ok)
    obtain items pc where ok: "ok = (items, pc)" by (cases ok)
    have "sp_paged_request client url q m P a = (calls, Inr (sp_success items pc))"
      by (simp add: sp_paged_request_def sp_result_def loop Inr ok)
    then show ?thesis using bound pages [of items pc] Inr ok
      by (simp add: sp_success_inject)
  qed
qed

lemma email_request_calls_bound:
  assumes "0 \<le> P"
  shows "int (length (fst (email_paged_request client url q m P a))) \<le> P
     \<and> (\<forall>items pages. snd (email_paged_request client url q m P a) = Inr (sp_success items pages)
          \<longrightarrow> pages = length (fst (email_paged_request client url q m P a)) \<and> int pages \<le> P)"
proof -
  obtain calls r where loop: "email_paged_loop client url q m P (JStr url) [] 0 [] = (calls, r)"
    by (cases "email_paged_loop client url q m P (JStr url) [] 0 []")
  have bound: "int (length calls) \<le> P" and pages: "\<And>items pc. r = Inr (items, pc) \<Longrightarrow> pc = length calls"
    using email_loop_calls_bound [OF _ _ loop] assms by simp_all
  show ?thesis
  proof (cases r)
    case (Inl e)
    then have "email_paged_request client url q m P a = (calls, handle_email_api_error e a)"
      by (simp add: email_paged_request_def email_result_def loop)
    then show ?thesis using bound sp_success_not_error(2) [of e a] by simp
  next
    case (Inr ok)
    obtain items pc where ok: "ok = (items, pc)" by (cases ok)
    have "email_paged_request client url q m P a = (calls, Inr (sp_success items pc))"
      by (simp add: email_paged_request_def email_result_def loop Inr ok)
    then show ?thesis using bound pages [of items pc] Inr ok
      by (simp add: sp_success_inject)
  qed
qed


lemma page_responseD:
  "page_response outcome \<Longrightarrow>
   \<exists>r d. outcome = Inr r \<and> json_body r = Inr (JDict d)
     \<and> (\<not> truthy (py_get d ''@odata.nextLink'' JNull) \<or> is_str (py_get d ''@odata.nextLink'' JNull))"
  by (auto simp: page_response_def split: sum.splits json.splits)

lemma sp_loop_items_bound:
  "int (length all_items) \<le> N \<Longrightarrow> m = Some N \<Longrightarrow>
   sp_paged_loop client url q m P cur all_items page_count calls = (calls', Inr (items, pc)) \<Longrightarrow>
   int (length items) \<le> N"
proof (induction client url q m P cur all_items page_count calls rule: sp_paged_loop.induct)
  case (1 client url q m P cur all_items page_count calls)
  from "1.prems" "1.IH" show ?case
    by (subst (asm) sp_paged_loop.simps)
      (auto simp: Let_def length_append_items_le split: if_splits sum.splits json.splits)
qed

lemma onedrive_loop_items_bound:
  "int (length all_items) \<le> N \<Longrightarrow>
   onedrive_paged_loop client url q N P cur all_items page_count calls = (calls', Inr (items, pc)) \<Longrightarrow>
   int (length items) \<le> N"
proof (induction client url q N P cur all_items page_count calls rule: onedrive_paged_loop.induct)
  case (1 client url q N P cur all_items page_count calls)
  from "1.prems" "1.IH" show ?case
    by (subst (asm) onedrive_paged_loop.simps)
      (auto simp: Let_def length_append_items_le split: if_splits sum.splits json.splits)
qed

lemma sp_loop_succeeds:
  "\<forall>k c. page_response (client k c) \<Longrightarrow>
   \<exists>items pc. snd (sp_paged_loop client url q m P cur all_items page_count calls) = Inr (items, pc)"
proof (induction client url q m P cur all_items page_count calls rule: sp_paged_loop.induct)
  case (1 client url q m P cur all_items page_count calls)
  let ?ps = "if Suc page_count = 1 \<and> cur = JStr url then Some q else None"
  from "1.prems" have "page_response (client (Suc page_count) (cur, ?ps))" by blast
  then obtain r d where r: "client (Suc page_count) (cur, ?ps) = Inr r"
    and d: "json_body r = Inr (JDict d)"
    using page_responseD by blast
  show ?case
  proof (cases "truthy cur \<and> below_cap m all_items \<and> int page_count < P")
    case False
    then show ?thesis by (subst sp_paged_loop.simps) auto
  next
    case True
    show ?thesis
    proof (cases "py_get d ''value'' (JList [])")
      case (JList page_items)
      show ?thesis
      proof (cases "\<not> truthy (py_get d ''@odata.nextLink'' JNull)
                    \<or> \<not> below_cap m (append_items m all_items page_items)")
        case stop: True
        with True r d JList show ?thesis
          by (subst sp_paged_loop.simps) (auto simp: Let_def)
      next
        case go: False
        have "\<exists>items pc. snd (sp_paged_loop client url q m P (py_get d ''@odata.nextLink'' JNull)
                 (append_items m all_items page_items) (Suc page_count)
                 (calls @ [(cur, ?ps)])) = Inr (items, pc)"
          using "1.IH" [OF True refl refl refl refl r d refl JList refl refl go "1.prems"] .
        with True r d JList go show ?thesis
          by (subst sp_paged_loop.simps) (auto simp: Let_def)
      qed
    qed (use True r d in \<open>subst sp_paged_loop.simps, auto simp: Let_def\<close>)+
  qed
qed

lemma onedrive_loop_succeeds:
  "\<forall>k c. page_response (client k c) \<Longrightarrow> \<not> truthy cur \<or> is_str cur \<Longrightarrow>
   \<exists>items pc. snd (onedrive_paged_loop client url q N P cur all_items page_count calls) = Inr (items, pc)"
proof (induction client url q N P cur all_items page_count calls rule: onedrive_paged_loop.induct)
  case (1 client url q N P cur all_items page_count calls)
  let ?ps = "if cur = JStr url \<and> Suc page_count = 1 then Some q else None"
  let ?next = "\<lambda>d. py_get d ''@odata.nextLink'' JNull"
  from "1.prems" have "page_response (client (Suc page_count) (cur, ?ps))" by blast
  then obtain r d where r: "client (Suc page_count) (cur, ?ps) = Inr r"
    and d: "json_body r = Inr (JDict d)"
    and cursor: "\<not> truthy (?next d) \<or> is_str (?next d)"
    using page_responseD by blast
  show ?case
  proof (cases "truthy cur \<and> int (length all_items) < N \<and> int page_count < P")
    case False
    then show ?thesis by (subst onedrive_paged_loop.simps) auto
  next
    case True
    with "1.prems"(2) have str: "\<not> \<not> is_str cur" by simp
    show ?thesis
    proof (cases "py_get d ''value'' (JList [])")
      case (JList page_items)
      show ?thesis
      proof (cases "\<not> truthy (?next d)
                    \<or> N \<le> int (length (append_items (Some N) all_items page_items))")
        case stop: True
        with True str r d JList show ?thesis
          by (subst onedrive_paged_loop.simps) (auto simp: Let_def)
      next
        case go: False
        have "\<exists>items pc. snd (onedrive_paged_loop client url q N P (?next d)
                 (append_items (Some N) all_items page_items) (Suc page_count)
                 (calls @ [(cur, ?ps)])) = Inr (items, pc)"
          using "1.IH" [OF True refl refl str refl refl r d refl JList refl refl go
              "1.prems"(1) cursor] .
        with True str r d JList go show ?thesis
          by (subst onedrive_paged_loop.simps) (auto simp: Let_def)
      qed
    qed (use True str r d in \<open>subst onedrive_paged_loop.simps, auto simp: Let_def\<close>)+
  qed
qed

lemma sp_request_items_bound:
  "snd (sp_paged_request client url q (Some N) P a) = Inr (sp_success items pages) \<Longrightarrow> 0 \<le> N
   \<Longrightarrow> int (length items) \<le> N"
proof -
  assume res: "snd (sp_paged_request client url q (Some N) P a) = Inr (sp_success items pages)"
    and N: "0 \<le> N"
  obtain calls r where loop: "sp_paged_loop client url q (Some N) P (JStr url) [] 0 [] = (calls, r)"
    by (cases "sp_paged_loop client url q (Some N) P (JStr url) [] 0 []")
  show ?thesis
  proof (cases r)
    case (Inl e)
    with res loop sp_success_not_error(1) [of e a items pages] show ?thesis
      by (simp add: sp_paged_request_def sp_result_def)
  next
    case (Inr ok)
    obtain items' pc where ok: "ok = (items', pc)" by (cases ok)
    from res loop Inr ok have "items' = items"
      by (simp add: sp_paged_request_def sp_result_def sp_success_inject)
    with sp_loop_items_bound [of "[]" N "Some N" client url q P "JStr url" 0 "[]" calls items' pc]
      loop Inr ok N show ?thesis by simp
  qed
qed

lemma onedrive_request_items_bound:
  "snd (onedrive_paged_request client url q N P a) = Inr (onedrive_success items pages) \<Longrightarrow> 0 \<le> N
   \<Longrightarrow> int (length items) \<le> N"
proof -
  assume res: "snd (onedrive_paged_request client url q N P a) = Inr (onedrive_success items pages)"
    and N: "0 \<le> N"
  obtain calls r where loop: "onedrive_paged_loop client url q N P (JStr url) [] 0 [] = (calls, r)"
    by (cases "onedrive_paged_loop client url q N P (JStr url) [] 0 []")
  show ?thesis
  proof (cases r)
    case (Inl e)
    with res loop onedrive_success_not_error [of e a items pages] show ?thesis
      by (simp add: onedrive_paged_request_def onedrive_result_def)
  next
    case (Inr ok)
    obtain items' pc where ok: "ok = (items', pc)" by (cases ok)
    from res loop Inr ok have "items' = items"
      by (simp add: onedrive_paged_request_def onedrive_result_def onedrive_success_inject)
    with onedrive_loop_items_bound [of "[]" N client url q P "JStr url" 0 "[]" calls items' pc]
      loop Inr ok N show ?thesis by simp
  qed
qed

lemma sp_request_succeeds:
  "\<forall>k c. page_response (client k c) \<Longrightarrow>
   \<exists>items pages. snd (sp_paged_request client url q m P a) = Inr (sp_success items pages)"
proof -
  assume "\<forall>k c. page_response (client k c)"
  from sp_loop_succeeds [OF this, of url q m P "JStr url" "[]" 0 "[]"]
  obtain items pc where "snd (sp_paged_loop client url q m P (JStr url) [] 0 []) = Inr (items, pc)"
    by blast
  then have "snd (sp_paged_request client url q m P a) = Inr (sp_success items pc)"
    by (cases "sp_paged_loop client url q m P (JStr url) [] 0 []")
      (simp add: sp_paged_request_def sp_result_def)
  then show ?thesis by blast
qed

lemma onedrive_request_succeeds:
  "\<forall>k c. page_response (client k c) \<Longrightarrow>
   \<exists>items pages. snd (onedrive_paged_request client url q N P a) = Inr (onedrive_success items pages)"
proof -
  assume "\<forall>k c. page_response (client k c)"
  from onedrive_loop_succeeds [OF this, of "JStr url" url q N P "[]" 0 "[]"]
  obtain items pc where "snd (onedrive_paged_loop client url q N P (JStr url) [] 0 []) = Inr (items, pc)"
    by auto
  then have "snd (onedrive_paged_request client url q N P a) = Inr (onedrive_success items pc)"
    by (cases "onedrive_paged_loop client url q N P (JStr url) [] 0 []")
      (simp add: onedrive_paged_request_def onedrive_result_def)
  then show ?thesis by blast
qed

lemma append_items_take:
  "append_items m all_items page_items =
     all_items @ take (case m of None \<Rightarrow> length page_items | Some N \<Rightarrow> nat (N - int (length all_items))) page_items"
proof (induction page_items arbitrary: all_items)
  case Nil
  then show ?case by simp
next
  case (Cons item page_items)
  show ?case
  proof (cases m)
    case None
    then show ?thesis using Cons.IH [of "all_items @ [item]"] by (simp add: below_cap_def)
  next
    case (Some N)
    show ?thesis
    proof (cases "int (length all_items) < N")
      case True
      then have "nat (N - int (length all_items)) = Suc (nat (N - int (length (all_items @ [item]))))"
        by auto
      then show ?thesis using Cons.IH [of "all_items @ [item]"] Some True
        by (simp add: below_cap_def)
    next
      case False
      then show ?thesis using Some by (simp add: below_cap_def)
    qed
  qed
qed

lemma sp_loop_raise:
  "truthy cur \<Longrightarrow> below_cap m all_items \<Longrightarrow> int pc < P \<Longrightarrow>
   client (Suc pc) (cur, if Suc pc = 1 \<and> cur = JStr url then Some q else None) = Inl e \<Longrightarrow>
   sp_paged_loop client url q m P cur all_items pc calls
     = (calls @ [(cur, if Suc pc = 1 \<and> cur = JStr url then Some q else None)], Inl e)"
  by (subst sp_paged_loop.simps) (simp add: Let_def)

lemma sp_loop_page:
  "truthy cur \<Longrightarrow> below_cap m all_items \<Longrightarrow> int pc < P \<Longrightarrow>
   client (Suc pc) (cur, if Suc pc = 1 \<and> cur = JStr url then Some q else None) = Inr r \<Longrightarrow>
   json_body r = Inr (JDict d) \<Longrightarrow> py_get d ''value'' (JList []) = JList page_items \<Longrightarrow>
   sp_paged_loop client url q m P cur all_items pc calls
     = (if \<not> truthy (py_get d ''@odata.nextLink'' JNull)
           \<or> \<not> below_cap m (append_items m all_items page_items)
        then (calls @ [(cur, if Suc pc = 1 \<and> cur = JStr url then Some q else None)],
              Inr (append_items m all_items page_items, Suc pc))
        else sp_paged_loop client url q m P (py_get d ''@odata.nextLink'' JNull)
               (append_items m all_items page_items) (Suc pc)
               (calls @ [(cur, if Suc pc = 1 \<and> cur = JStr url then Some q else None)]))"
  by (subst sp_paged_loop.simps) (simp add: Let_def)

lemma sp_loop_not_list:
  "truthy cur \<Longrightarrow> below_cap m all_items \<Longrightarrow> int pc < P \<Longrightarrow>
   client (Suc pc) (cur, if Suc pc = 1 \<and> cur = JStr url then Some q else None) = Inr r \<Longrightarrow>
   json_body r = Inr (JDict d) \<Longrightarrow> \<not> is_list (py_get d ''value'' (JList [])) \<Longrightarrow>
   sp_paged_loop client url q m P cur all_items pc calls
     = (calls @ [(cur, if Suc pc = 1 \<and> cur = JStr url then Some q else None)],
        Inr (all_items, Suc pc))"
  by (cases "py_get d ''value'' (JList [])"; subst sp_paged_loop.simps) (simp_all add: Let_def)

lemma onedrive_loop_raise:
  "truthy cur \<Longrightarrow> int (length all_items) < N \<Longrightarrow> int pc < P \<Longrightarrow> is_str cur \<Longrightarrow>
   client (Suc pc) (cur, if Suc pc = 1 \<and> cur = JStr url then Some q else None) = Inl e \<Longrightarrow>
   onedrive_paged_loop client url q N P cur all_items pc calls
     = (calls @ [(cur, if Suc pc = 1 \<and> cur = JStr url then Some q else None)], Inl e)"
  by (subst onedrive_paged_loop.simps) (simp add: Let_def conj_commute)

lemma onedrive_loop_page:
  "truthy cur \<Longrightarrow> int (length all_items) < N \<Longrightarrow> int pc < P \<Longrightarrow> is_str cur \<Longrightarrow>
   client (Suc pc) (cur, if Suc pc = 1 \<and> cur = JStr url then Some q else None) = Inr r \<Longrightarrow>
   json_body r = Inr (JDict d) \<Longrightarrow> py_get d ''value'' (JList []) = JList page_items \<Longrightarrow>
   onedrive_paged_loop client url q N P cur all_items pc calls
     = (if \<not> truthy (py_get d ''@odata.nextLink'' JNull)
           \<or> N \<le> int (length (append_items (Some N) all_items page_items))
        then (calls @ [(cur, if Suc pc = 1 \<and> cur = JStr url then Some q else None)],
              Inr (append_items (Some N) all_items page_items, Suc pc))
        else onedrive_paged_loop client url q N P (py_get d ''@odata.nextLink'' JNull)
               (append_items (Some N) all_items page_items) (Suc pc)
               (calls @ [(cur, if Suc pc = 1 \<and> cur = JStr url then Some q else None)]))"
  by (subst onedrive_paged_loop.simps) (simp add: Let_def conj_commute)

lemma onedrive_loop_not_list:
  "truthy cur \<Longrightarrow> int (length all_items) < N \<Longrightarrow> int pc < P \<Longrightarrow> is_str cur \<Longrightarrow>
   client (Suc pc) (cur, if Suc pc = 1 \<and> cur = JStr url then Some q else None) = Inr r \<Longrightarrow>
   json_body r = Inr (JDict d) \<Longrightarrow> \<not> is_list (py_get d ''value'' (JList [])) \<Longrightarrow>
   onedrive_paged_loop client url q N P cur all_items pc calls
     = (calls @ [(cur, if Suc pc = 1 \<and> cur = JStr url then Some q else None)],
        Inr (all_items, Suc pc))"
  by (cases "py_get d ''value'' (JList [])"; subst onedrive_paged_loop.simps)
    (simp_all add: Let_def conj_commute)

lemma sp_loop_exit:
  "\<not> (truthy cur \<and> below_cap m all_items \<and> int pc < P) \<Longrightarrow>
   sp_paged_loop client url q m P cur all_items pc calls = (calls, Inr (all_items, pc))"
  by (subst sp_paged_loop.simps) auto

lemma onedrive_loop_exit:
  "\<not> (truthy cur \<and> int (length all_items) < N \<and> int pc < P) \<Longrightarrow>
   onedrive_paged_loop client url q N P cur all_items pc calls = (calls, Inr (all_items, pc))"
  by (subst onedrive_paged_loop.simps) auto

lemma fst_sp_result [simp]: "fst (sp_result a outcome) = fst outcome"
  by (simp add: sp_result_def split: prod.split sum.split)

lemma fst_onedrive_result [simp]: "fst (onedrive_result a outcome) = fst outcome"
  by (simp add: onedrive_result_def split: prod.split sum.split)

lemma sp_result_ok [simp]:
  "sp_result a (calls, Inr (all_items, pc)) = (calls, Inr (sp_success all_items pc))"
  by (simp add: sp_result_def)

lemma onedrive_result_ok [simp]:
  "onedrive_result a (calls, Inr (all_items, pc)) = (calls, Inr (onedrive_success all_items pc))"
  by (simp add: onedrive_result_def)

lemma sp_loop_calls_extend:
  "sp_paged_loop client url q m P cur all_items pc calls = (calls', r) \<Longrightarrow> prefix calls calls'"
proof (induction client url q m P cur all_items pc calls rule: sp_paged_loop.induct)
  case (1 client url q m P cur all_items pc calls)
  note IH = "1.IH" [OF _ refl refl refl refl _ _ refl _ refl refl]
  from "1.prems" IH show ?case
    by (subst (asm) sp_paged_loop.simps)
      (auto simp: Let_def split: if_splits sum.splits json.splits dest: append_prefixD)
qed

lemma sp_loop_calls_prefix:
  "prefix calls (fst (sp_paged_loop client url q m P cur all_items pc calls))"
  by (cases "sp_paged_loop client url q m P cur all_items pc calls")
    (simp add: sp_loop_calls_extend)

lemma onedrive_loop_calls_extend:
  "onedrive_paged_loop client url q N P cur all_items pc calls = (calls', r) \<Longrightarrow> prefix calls calls'"
proof (induction client url q N P cur all_items pc calls rule: onedrive_paged_loop.induct)
  case (1 client url q N P cur all_items pc calls)
  note IH = "1.IH" [OF _ refl refl _ refl refl _ _ refl _ refl refl]
  from "1.prems" IH show ?case
    by (subst (asm) onedrive_paged_loop.simps)
      (auto simp: Let_def split: if_splits sum.splits json.splits dest: append_prefixD)
qed

lemma onedrive_loop_calls_prefix:
  "prefix calls (fst (onedrive_paged_loop client url q N P cur all_items pc calls))"
  by (cases "onedrive_paged_loop client url q N P cur all_items pc calls")
    (simp add: onedrive_loop_calls_extend)

lemma sp_loop_first_call:
  "truthy cur \<Longrightarrow> below_cap m all_items \<Longrightarrow> int pc < P \<Longrightarrow>
   prefix (calls @ [(cur, if Suc pc = 1 \<and> cur = JStr url then Some q else None)])
     (fst (sp_paged_loop client url q m P cur all_items pc calls))"
  by (subst sp_paged_loop.simps)
    (auto simp: Let_def sp_loop_calls_prefix split: sum.split json.split)

lemma onedrive_loop_first_call:
  "truthy cur \<Longrightarrow> int (length all_items) < N \<Longrightarrow> int pc < P \<Longrightarrow> is_str cur \<Longrightarrow>
   prefix (calls @ [(cur, if Suc pc = 1 \<and> cur = JStr url then Some q else None)])
     (fst (onedrive_paged_loop client url q N P cur all_items pc calls))"
  by (subst onedrive_paged_loop.simps)
    (auto simp: Let_def onedrive_loop_calls_prefix split: sum.split json.split)

lemma single_page_items_eq:
  "single_page_items m d =
     (case py_get d ''value'' (JList []) of JList page_items \<Rightarrow> append_items m [] page_items | v \<Rightarrow> [])"
  by (simp add: single_page_items_def append_items_take split: json.split option.split)

lemma cursor_chain_Cons:
  "cursor_chain client k (c # cs) \<longleftrightarrow>
     cs = [] \<or>
     (snd (hd cs) = None
      \<and> (\<exists>r d. client k c = Inr r \<and> json_body r = Inr (JDict d)
             \<and> map_of d ''@odata.nextLink'' = Some (fst (hd cs)))
      \<and> cursor_chain client (Suc k) cs)"
  by (cases cs) (auto split: sum.splits json.splits)

lemma cursor_chain_params:
  "cursor_chain client k cs \<Longrightarrow> \<forall>c \<in> set (tl cs). snd c = None"
proof (induction cs arbitrary: k)
  case Nil
  then show ?case by simp
next
  case (Cons c cs)
  then show ?case
    by (cases cs) (auto simp: cursor_chain_Cons)
qed

lemma py_get_truthy:
  "truthy (py_get d key JNull) \<Longrightarrow> map_of d key = Some (py_get d key JNull)"
  by (cases "map_of d key") (simp_all add: py_get_def)

lemma sp_loop_calls_chain:
  "sp_paged_loop client url q m P cur all_items pc calls = (calls', res) \<Longrightarrow>
   \<exists>new. calls' = calls @ new
     \<and> (new = [] \<or> hd new = (cur, if Suc pc = 1 \<and> cur = JStr url then Some q else None))
     \<and> cursor_chain client (Suc pc) new"
proof (induction client url q m P cur all_items pc calls arbitrary: calls' res
    rule: sp_paged_loop.induct)
  case (1 client url q m P cur all_items pc calls)
  note IH = "1.IH" [OF _ refl refl refl refl _ _ refl _ refl refl]
  let ?call = "(cur, if Suc pc = 1 \<and> cur = JStr url then Some q else None)"
  show ?case
  proof (cases "truthy cur \<and> below_cap m all_items \<and> int pc < P")
    case False
    with "1.prems" have "calls' = calls" by (simp add: sp_loop_exit)
    then show ?thesis by simp
  next
    case cond: True
    have single: ?thesis if "calls' = calls @ [?call]"
      using that by (intro exI [of _ "[?call]"]) simp
    show ?thesis
    proof (cases "client (Suc pc) ?call")
      case (Inl e)
      with cond "1.prems" have "calls' = calls @ [?call]" by (simp add: sp_loop_raise)
      then show ?thesis by (rule single)
    next
      case (Inr r)
      show ?thesis
      proof (cases "json_body r")
        case (Inl decode_msg)
        with cond Inr "1.prems" have "calls' = calls @ [?call]"
          by (subst (asm) sp_paged_loop.simps) (simp add: Let_def)
        then show ?thesis by (rule single)
      next
        case body: (Inr v)
        show ?thesis
        proof (cases "\<exists>d. v = JDict d")
          case False
          with cond Inr body "1.prems" have "calls' = calls @ [?call]"
            by (subst (asm) sp_paged_loop.simps) (cases v; simp add: Let_def)
          then show ?thesis by (rule single)
        next
          case True
          then obtain d where d: "v = JDict d" by blast
          let ?next = "py_get d ''@odata.nextLink'' JNull"
          show ?thesis
          proof (cases "py_get d ''value'' (JList [])")
            case (JList page_items)
            let ?all = "append_items m all_items page_items"
            show ?thesis
            proof (cases "\<not> truthy ?next \<or> \<not> below_cap m ?all")
              case True
              with cond Inr body d JList "1.prems" have "calls' = calls @ [?call]"
                using sp_loop_page [of cur m all_items pc P client url q r d page_items calls]
                by simp
              then show ?thesis by (rule single)
            next
              case go: False
              with cond Inr body d JList "1.prems"
              have rec: "sp_paged_loop client url q m P ?next ?all (Suc pc) (calls @ [?call])
                           = (calls', res)"
                using sp_loop_page [of cur m all_items pc P client url q r d page_items calls]
                by simp
              from cond have c1: "truthy cur \<and> below_cap m all_items \<and> int pc < P" .
              from body d have b: "json_body r = Inr (JDict d)" by simp
              from IH [OF c1 Inr b JList go rec]
              obtain new where new: "calls' = (calls @ [?call]) @ new"
                and hd: "new = [] \<or> hd new = (?next, None)"
                and chain: "cursor_chain client (Suc (Suc pc)) new"
                by auto
              from go have "map_of d ''@odata.nextLink'' = Some ?next"
                by (simp add: py_get_truthy)
              with hd chain Inr b have "cursor_chain client (Suc pc) (?call # new)"
                by (auto simp: cursor_chain_Cons)
              with new show ?thesis
                by (intro exI [of _ "?call # new"]) simp
            qed
          qed (use cond Inr body d "1.prems"
                sp_loop_not_list [of cur m all_items pc P client url q r d calls] single
               in \<open>simp_all\<close>)
        qed
      qed
    qed
  qed
qed

lemma onedrive_loop_calls_chain:
  "onedrive_paged_loop client url q N P cur all_items pc calls = (calls', res) \<Longrightarrow>
   \<exists>new. calls' = calls @ new
     \<and> (new = [] \<or> hd new = (cur, if Suc pc = 1 \<and> cur = JStr url then Some q else None))
     \<and> cursor_chain client (Suc pc) new"
proof (induction client url q N P cur all_items pc calls arbitrary: calls' res
    rule: onedrive_paged_loop.induct)
  case (1 client url q N P cur all_items pc calls)
  note IH = "1.IH" [OF _ refl refl _ refl refl _ _ refl _ refl refl]
  let ?call = "(cur, if Suc pc = 1 \<and> cur = JStr url then Some q else None)"
  show ?case
  proof (cases "truthy cur \<and> int (length all_items) < N \<and> int pc < P")
    case False
    with "1.prems" have "calls' = calls" by (simp add: onedrive_loop_exit)
    then show ?thesis by simp
  next
    case cond: True
    have single: ?thesis if "calls' = calls @ [?call]"
      using that by (intro exI [of _ "[?call]"]) simp
    show ?thesis
    proof (cases "is_str cur")
      case False
      with cond "1.prems" have "calls' = calls"
        by (subst (asm) onedrive_paged_loop.simps) (simp add: Let_def)
      then show ?thesis by simp
    next
      case str: True
      show ?thesis
      proof (cases "client (Suc pc) ?call")
        case (Inl e)
        with cond str "1.prems" have "calls' = calls @ [?call]"
          by (simp add: onedrive_loop_raise)
        then show ?thesis by (rule single)
      next
        case (Inr r)
        show ?thesis
        proof (cases "json_body r")
          case (Inl decode_msg)
          with cond str Inr "1.prems" have "calls' = calls @ [?call]"
            by (subst (asm) onedrive_paged_loop.simps) (simp add: Let_def conj_commute)
          then show ?thesis by (rule single)
        next
          case body: (Inr v)
          show ?thesis
          proof (cases "\<exists>d. v = JDict d")
            case False
            with cond str Inr body "1.prems" have "calls' = calls @ [?call]"
              by (subst (asm) onedrive_paged_loop.simps) (cases v; simp add: Let_def conj_commute)
            then show ?thesis by (rule single)
          next
            case True
            then obtain d where d: "v = JDict d" by blast
            let ?next = "py_get d ''@odata.nextLink'' JNull"
            show ?thesis
            proof (cases "py_get d ''value'' (JList [])")
              case (JList page_items)
              let ?all = "append_items (Some N) all_items page_items"
              show ?thesis
              proof (cases "\<not> truthy ?next \<or> N \<le> int (length ?all)")
                case True
                with cond str Inr body d JList "1.prems" have "calls' = calls @ [?call]"
                  using onedrive_loop_page [of cur all_items N pc P client url q r d page_items calls]
                  by simp
                then show ?thesis by (rule single)
              next
                case go: False
                with cond str Inr body d JList "1.prems"
                have rec: "onedrive_paged_loop client url q N P ?next ?all (Suc pc)
                             (calls @ [(cur, if cur = JStr url \<and> Suc pc = 1 then Some q else None)])
                           = (calls', res)"
                  using onedrive_loop_page [of cur all_items N pc P client url q r d page_items calls]
                  by (simp add: conj_commute)
                from cond have c1: "truthy cur \<and> int (length all_items) < N \<and> int pc < P" .
                from str have s1: "\<not> \<not> is_str cur" by simp
                from Inr have r1: "client (Suc pc)
                    (cur, if cur = JStr url \<and> Suc pc = 1 then Some q else None) = Inr r"
                  by (simp add: conj_commute)
                from body d have b: "json_body r = Inr (JDict d)" by simp
                from IH [OF c1 s1 r1 b JList go rec]
                obtain new where new: "calls' = (calls @ [?call]) @ new"
                  and hd: "new = [] \<or> hd new = (?next, None)"
                  and chain: "cursor_chain client (Suc (Suc pc)) new"
                  by (auto simp: conj_commute)
                from go have "map_of d ''@odata.nextLink'' = Some ?next"
                  by (simp add: py_get_truthy)
                with hd chain Inr b have "cursor_chain client (Suc pc) (?call # new)"
                  by (auto simp: cursor_chain_Cons)
                with new show ?thesis
                  by (intro exI [of _ "?call # new"]) simp
              qed
            qed (use cond str Inr body d "1.prems"
                  onedrive_loop_not_list [of cur all_items N pc P client url q r d calls] single
                 in \<open>simp_all\<close>)
          qed
        qed
      qed
    qed
  qed
qed

lemma reraise_HTTPError:
  "reraise e' = HTTPError msg (Some r) \<Longrightarrow>
   (\<exists>decode_msg. json_body r = Inl decode_msg)
   \<or> (\<exists>error_data error_info. json_body r = Inr (JDict error_data)
         \<and> py_get error_data ''error'' (JDict []) = JDict error_info)"
  by (cases e')
    (auto simp: reraise_def AttributeError_def split: option.splits sum.splits json.splits)

lemma authenticated_get_HTTPError:
  "authenticated_get py_repr credential session dt scope k call = Inl (HTTPError msg (Some r)) \<Longrightarrow>
   (\<exists>decode_msg. json_body r = Inl decode_msg)
   \<or> (\<exists>error_data error_info. json_body r = Inr (JDict error_data)
         \<and> py_get error_data ''error'' (JDict []) = JDict error_info)"
  by (auto simp: authenticated_get_def request_def no_token_error_def Let_def
      raise_for_status_def
      split: option.splits sum.splits if_splits dest: reraise_HTTPError)

lemma handle_graph_api_error_transport:
  "handle_graph_api_error (RequestException cls msg) a
     = Inr (error_dict a (''Error ejecutando '' @ a @ '': '' @ cls) 500 (JStr msg) JNull)"
  by (simp add: handle_graph_api_error_def)

lemma handle_graph_api_error_http:
  assumes "(\<exists>decode_msg. json_body r = Inl decode_msg)
     \<or> (\<exists>error_data error_info. json_body r = Inr (JDict error_data)
           \<and> py_get error_data ''error'' (JDict []) = JDict error_info)"
  shows "\<exists>code. handle_graph_api_error (HTTPError msg (Some r)) a
     = Inr (error_dict a (''Error ejecutando '' @ a @ '': HTTPError'') (status_code r)
              (upstream_message (HTTPError msg (Some r))) code)"
  using assms
  by (auto simp: handle_graph_api_error_def upstream_message_def py_get_def
      split: option.splits sum.splits json.splits)

subsection \<open>C1: a slash does not keep a string from being taken for an ID\<close>

text \<open>
  C1 (defect of the code): the paths \<^verbatim>\<open>docs/a!b\<close> and \<^verbatim>\<open>driveItem_2024/report.txt\<close>
  contain \<^verbatim>\<open>/\<close>, and both resolvers return each of them unchanged as an assumed ID,
  without making the metadata lookup (which would have found an ID for them): the tests
  for \<^verbatim>\<open>!\<close> and for the prefix \<^verbatim>\<open>driveItem_\<close> do not look at \<^verbatim>\<open>/\<close>.
\<close>

theorem C1_slash_taken_for_id:
  "CHR ''/'' \<in> set ''docs/a!b''
   \<and> get_item_id_from_path_if_needed
        (\<lambda>p. Inr (JDict [(''status'', JStr ''success''), (''data'', JDict [(''id'', JStr ''01ABC'')])]))
        (\<lambda>v. []) ''docs/a!b''
       = ([], Inr (JStr ''docs/a!b''))
   \<and> get_item_id_from_path_if_needed_sp
        (\<lambda>p. Inr (JDict [(''status'', JStr ''success''), (''data'', JDict [(''id'', JStr ''01ABC'')])]))
        ''docs/a!b''
       = ([], JStr ''docs/a!b'')
   \<and> CHR ''/'' \<in> set ''driveItem_2024/report.txt''
   \<and> get_item_id_from_path_if_needed
        (\<lambda>p. Inr (JDict [(''status'', JStr ''success''), (''data'', JDict [(''id'', JStr ''01ABC'')])]))
        (\<lambda>v. []) ''driveItem_2024/report.txt''
       = ([], Inr (JStr ''driveItem_2024/report.txt''))
   \<and> get_item_id_from_path_if_needed_sp
        (\<lambda>p. Inr (JDict [(''status'', JStr ''success''), (''data'', JDict [(''id'', JStr ''01ABC'')])]))
        ''driveItem_2024/report.txt''
       = ([], JStr ''driveItem_2024/report.txt'')"
  by (simp add: get_item_id_from_path_if_needed_def get_item_id_from_path_if_needed_sp_def
      is_likely_id_def)

text \<open>
  With a \<^verbatim>\<open>/\<close> in the string the length test is off, so the string is taken for an ID
  exactly when it contains \<^verbatim>\<open>!\<close> or starts with \<^verbatim>\<open>driveItem_\<close>; every such string is
  returned unchanged without lookup, and every other string with a \<^verbatim>\<open>/\<close> is looked up.
\<close>

lemma slash_is_likely_id_iff:
  "CHR ''/'' \<in> set s \<Longrightarrow>
   is_likely_id s \<longleftrightarrow> CHR ''!'' \<in> set s \<or> prefix ''driveItem_'' s"
  by (simp add: is_likely_id_def)

lemma likely_id_returned_unchanged:
  "is_likely_id s \<Longrightarrow>
   get_item_id_from_path_if_needed lookup py_str s = ([], Inr (JStr s))
   \<and> get_item_id_from_path_if_needed_sp lookup s = ([], JStr s)"
  by (simp add: get_item_id_from_path_if_needed_def get_item_id_from_path_if_needed_sp_def)

lemma not_likely_id_looked_up:
  "\<not> is_likely_id s \<Longrightarrow>
   fst (get_item_id_from_path_if_needed lookup py_str s) = [s]
   \<and> fst (get_item_id_from_path_if_needed_sp lookup s) = [s]"
  by (simp add: get_item_id_from_path_if_needed_def get_item_id_from_path_if_needed_sp_def)

subsection \<open>C2: the item cap bounds the items returned\<close>

text \<open>
  C2: for every item cap \<open>N \<ge> 0\<close> (\<^verbatim>\<open>max_items_total = N\<close>), whatever the client answers
  and however many items a page holds, a success result of \<^verbatim>\<open>_sp_paged_request\<close> and of
  \<^verbatim>\<open>_onedrive_paged_request\<close> has at most \<open>N\<close> items; and when every answer of upstream
  is a page response, both helpers do return a success result, with at most \<open>N\<close> items.
  (For \<open>N < 0\<close> the loop is not entered and the list is empty.)
\<close>

theorem C2_item_cap:
  assumes "0 \<le> N"
  shows "(\<forall>items pages. snd (sp_paged_request client url q (Some N) P a) = Inr (sp_success items pages)
            \<longrightarrow> int (length items) \<le> N)
     \<and> (\<forall>items pages. snd (onedrive_paged_request client url q N P a) = Inr (onedrive_success items pages)
            \<longrightarrow> int (length items) \<le> N)
     \<and> ((\<forall>k c. page_response (client k c)) \<longrightarrow>
          (\<exists>items pages. snd (sp_paged_request client url q (Some N) P a) = Inr (sp_success items pages)
              \<and> int (length items) \<le> N)
          \<and> (\<exists>items pages. snd (onedrive_paged_request client url q N P a)
                = Inr (onedrive_success items pages) \<and> int (length items) \<le> N))"
proof (intro conjI allI impI)
  fix items pages
  assume "snd (sp_paged_request client url q (Some N) P a) = Inr (sp_success items pages)"
  then show "int (length items) \<le> N" using assms by (rule sp_request_items_bound)
next
  fix items pages
  assume "snd (onedrive_paged_request client url q N P a) = Inr (onedrive_success items pages)"
  then show "int (length items) \<le> N" using assms by (rule onedrive_request_items_bound)
next
  assume pages: "\<forall>k c. page_response (client k c)"
  from sp_request_succeeds [OF pages, of url q "Some N" P a]
  obtain items pgs where "snd (sp_paged_request client url q (Some N) P a) = Inr (sp_success items pgs)"
    by blast
  with sp_request_items_bound [OF this assms]
  show "\<exists>items pages. snd (sp_paged_request client url q (Some N) P a) = Inr (sp_success items pages)
          \<and> int (length items) \<le> N" by blast
next
  assume pages: "\<forall>k c. page_response (client k c)"
  from onedrive_request_succeeds [OF pages, of url q N P a]
  obtain items pgs where "snd (onedrive_paged_request client url q N P a) = Inr (onedrive_success items pgs)"
    by blast
  with onedrive_request_items_bound [OF this assms]
  show "\<exists>items pages. snd (onedrive_paged_request client url q N P a) = Inr (onedrive_success items pages)
          \<and> int (length items) \<le> N" by blast
qed

theorem C2_item_cap_witness:
  "(0::int) \<le> 2 \<and> page_response (big_page_client 1 (JStr ''u'', Some ()))
   \<and> sp_paged_request big_page_client ''u'' () (Some 2) 20 ''a''
       = ([(JStr ''u'', Some ())], Inr (sp_success [JInt 1, JInt 2] 1))
   \<and> onedrive_paged_request big_page_client ''u'' () 2 20 ''a''
       = ([(JStr ''u'', Some ())], Inr (onedrive_success [JInt 1, JInt 2] 1))
   \<and> (\<exists>items pages. snd (sp_paged_request big_page_client ''u'' () (Some 2) 20 ''a'')
          = Inr (sp_success items pages) \<and> int (length items) \<le> 2)"
proof -
  have cap: "(0::int) \<le> 2" by simp
  have pages: "\<forall>k c. page_response (big_page_client k c)"
    by (simp add: page_response_def big_page_client_def py_get_def)
  have sp: "sp_paged_request big_page_client ''u'' () (Some 2) 20 ''a''
       = ([(JStr ''u'', Some ())], Inr (sp_success [JInt 1, JInt 2] 1))"
    by code_simp
  have od: "onedrive_paged_request big_page_client ''u'' () 2 20 ''a''
       = ([(JStr ''u'', Some ())], Inr (onedrive_success [JInt 1, JInt 2] 1))"
    by code_simp
  from C2_item_cap [OF cap, of big_page_client "''u''" "()" 20 "''a''"] pages
  have "\<exists>items pages. snd (sp_paged_request big_page_client ''u'' () (Some 2) 20 ''a'')
          = Inr (sp_success items pages) \<and> int (length items) \<le> 2"
    by blast
  with cap pages sp od show ?thesis by blast
qed

subsection \<open>C3: the page cap bounds the number of requests\<close>

text \<open>
  C3: for every page cap \<open>P \<ge> 0\<close> and every client (every sequence of upstream
  answers, failures included), \<^verbatim>\<open>_sp_paged_request\<close> and \<^verbatim>\<open>_email_paged_request\<close>
  return (the loops are total functions: each round increases \<^verbatim>\<open>page_count\<close> towards
  the cap), make at most \<open>P\<close> calls of \<^verbatim>\<open>client.get\<close>, and a success result has
  \<^verbatim>\<open>pages_processed\<close> equal to the number of calls made (one call in each round of the
  loop), hence at most \<open>P\<close>.
\<close>

theorem C3_page_cap:
  assumes "0 \<le> P"
  shows "int (length (fst (sp_paged_request client url q m P a))) \<le> P
     \<and> (\<forall>items pages. snd (sp_paged_request client url q m P a) = Inr (sp_success items pages)
          \<longrightarrow> pages = length (fst (sp_paged_request client url q m P a)) \<and> int pages \<le> P)
     \<and> int (length (fst (email_paged_request client url q m P a))) \<le> P
     \<and> (\<forall>items pages. snd (email_paged_request client url q m P a) = Inr (sp_success items pages)
          \<longrightarrow> pages = length (fst (email_paged_request client url q m P a)) \<and> int pages \<le> P)"
  using sp_request_calls_bound [OF assms, of client url q m a]
    email_request_calls_bound [OF assms, of client url q m a]
  by (elim conjE) (intro conjI; assumption)


theorem C3_page_cap_witness:
  "(0::int) \<le> 2
   \<and> sp_paged_request endless_client ''u'' () None 2 ''a''
       = ([(JStr ''u'', Some ()), (JStr ''next'', None)], Inr (sp_success [JInt 1, JInt 2] 2))
   \<and> int (length (fst (sp_paged_request endless_client ''u'' () None 2 ''a''))) \<le> 2
   \<and> email_paged_request endless_client ''u'' () None 2 ''a''
       = ([(JStr ''u'', Some ()), (JStr ''next'', None)], Inr (sp_success [JInt 1, JInt 2] 2))
   \<and> int (length (fst (email_paged_request endless_client ''u'' () None 2 ''a''))) \<le> 2"
proof -
  have sp: "sp_paged_request endless_client ''u'' () None 2 ''a''
       = ([(JStr ''u'', Some ()), (JStr ''next'', None)], Inr (sp_success [JInt 1, JInt 2] 2))"
    by code_simp
  have em: "email_paged_request endless_client ''u'' () None 2 ''a''
       = ([(JStr ''u'', Some ()), (JStr ''next'', None)], Inr (sp_success [JInt 1, JInt 2] 2))"
    by code_simp
  have cap: "(0::int) \<le> 2" by simp
  from C3_page_cap [OF cap, of endless_client "''u''" "()" None "''a''"] sp em cap
  show ?thesis by simp
qed

subsection \<open>C4: a first page without cursor ends the fetch after one request\<close>

lemma single_page_outcome:
  assumes "url \<noteq> []" and "0 < P"
    and "client 1 (JStr url, Some q) = Inr r" and "json_body r = Inr (JDict d)"
    and "\<not> truthy (py_get d ''@odata.nextLink'' JNull)"
  shows "(below_cap m [] \<longrightarrow>
            sp_paged_request client url q m P a
              = ([(JStr url, Some q)], Inr (sp_success (single_page_items m d) 1)))
       \<and> (0 < N \<longrightarrow>
            onedrive_paged_request client url q N P a
              = ([(JStr url, Some q)], Inr (onedrive_success (single_page_items (Some N) d) 1)))"
proof (intro conjI impI)
  assume cap: "below_cap m []"
  show "sp_paged_request client url q m P a
          = ([(JStr url, Some q)], Inr (sp_success (single_page_items m d) 1))"
  proof (cases "py_get d ''value'' (JList [])")
    case (JList page_items)
    from sp_loop_page [of "JStr url" m "[]" 0 P client url q r d page_items "[]"] assms cap JList
    have "sp_paged_loop client url q m P (JStr url) [] 0 []
            = ([(JStr url, Some q)], Inr (append_items m [] page_items, Suc 0))"
      by simp
    then show ?thesis by (simp add: sp_paged_request_def single_page_items_eq JList)
  qed (use sp_loop_not_list [of "JStr url" m "[]" 0 P client url q r d "[]"] assms cap in
        \<open>simp add: sp_paged_request_def single_page_items_eq\<close>)+
next
  assume cap: "0 < N"
  show "onedrive_paged_request client url q N P a
          = ([(JStr url, Some q)], Inr (onedrive_success (single_page_items (Some N) d) 1))"
  proof (cases "py_get d ''value'' (JList [])")
    case (JList page_items)
    from onedrive_loop_page [of "JStr url" "[]" N 0 P client url q r d page_items "[]"] assms cap JList
    have "onedrive_paged_loop client url q N P (JStr url) [] 0 []
            = ([(JStr url, Some q)], Inr (append_items (Some N) [] page_items, Suc 0))"
      by simp
    then show ?thesis by (simp add: onedrive_paged_request_def single_page_items_eq JList)
  qed (use onedrive_loop_not_list [of "JStr url" "[]" N 0 P client url q r d "[]"] assms cap in
        \<open>simp add: onedrive_paged_request_def single_page_items_eq\<close>)+
qed

text \<open>
  C4: when the loop is entered (the start URL is not empty, the page cap is positive,
  the item cap is absent or positive) and the first response is a JSON object with no
  \<^verbatim>\<open>@odata.nextLink\<close> (the key is absent, or its value is null or empty),
  \<^verbatim>\<open>_sp_paged_request\<close> and \<^verbatim>\<open>_onedrive_paged_request\<close> make exactly one call, the
  start URL with the initial parameters, and return a dictionary with \<^verbatim>\<open>status\<close>
  equal to \<^verbatim>\<open>success\<close>, \<^verbatim>\<open>pages_processed\<close> equal to 1, and as \<^verbatim>\<open>data\<close> the items of that
  page, subject to the item cap, \<^verbatim>\<open>total_retrieved\<close> being their number.
\<close>

theorem C4_single_page:
  assumes "url \<noteq> []" and "0 < P"
    and "client 1 (JStr url, Some q) = Inr r" and "json_body r = Inr (JDict d)"
    and "\<not> truthy (py_get d ''@odata.nextLink'' JNull)"
  shows "(below_cap m [] \<longrightarrow>
           (\<exists>result. sp_paged_request client url q m P a = ([(JStr url, Some q)], Inr result)
              \<and> dict_lookup result ''status'' = Some (JStr ''success'')
              \<and> dict_lookup result ''pages_processed'' = Some (JInt 1)
              \<and> dict_lookup result ''data''
                  = Some (JDict [(''value'', JList (single_page_items m d)),
                                 (''@odata.count'', JInt (int (length (single_page_items m d))))])
              \<and> dict_lookup result ''total_retrieved''
                  = Some (JInt (int (length (single_page_items m d))))))
       \<and> (0 < N \<longrightarrow>
           (\<exists>result. onedrive_paged_request client url q N P a = ([(JStr url, Some q)], Inr result)
              \<and> dict_lookup result ''status'' = Some (JStr ''success'')
              \<and> dict_lookup result ''pages_processed'' = Some (JInt 1)
              \<and> dict_lookup result ''data'' = Some (JList (single_page_items (Some N) d))
              \<and> dict_lookup result ''total_retrieved''
                  = Some (JInt (int (length (single_page_items (Some N) d))))))"
  using single_page_outcome [where url=url and P=P and client=client and q=q and r=r and d=d
      and m=m and a=a and N=N] assms
  by (simp add: sp_success_def onedrive_success_def)

theorem C4_single_page_witness:
  "''u'' \<noteq> [] \<and> (0::int) < 20
   \<and> single_page_client 1 (JStr ''u'', Some ()) = json_page [(''value'', JList [JInt 1, JInt 2, JInt 3])]
   \<and> \<not> truthy (py_get [(''value'', JList [JInt 1, JInt 2, JInt 3])] ''@odata.nextLink'' JNull)
   \<and> below_cap (Some 2) [] \<and> (0::int) < 2
   \<and> sp_paged_request single_page_client ''u'' () (Some 2) 20 ''a''
       = ([(JStr ''u'', Some ())],
          Inr (JDict [(''status'', JStr ''success''),
                      (''data'', JDict [(''value'', JList [JInt 1, JInt 2]), (''@odata.count'', JInt 2)]),
                      (''total_retrieved'', JInt 2), (''pages_processed'', JInt 1)]))
   \<and> onedrive_paged_request single_page_client ''u'' () 2 20 ''a''
       = ([(JStr ''u'', Some ())],
          Inr (JDict [(''status'', JStr ''success''), (''data'', JList [JInt 1, JInt 2]),
                      (''total_retrieved'', JInt 2), (''pages_processed'', JInt 1)]))
   \<and> (\<exists>result. sp_paged_request single_page_client ''u'' () (Some 2) 20 ''a''
          = ([(JStr ''u'', Some ())], Inr result)
        \<and> dict_lookup result ''status'' = Some (JStr ''success'')
        \<and> dict_lookup result ''pages_processed'' = Some (JInt 1)
        \<and> dict_lookup result ''total_retrieved'' = Some (JInt 2))"
proof -
  have sp: "sp_paged_request single_page_client ''u'' () (Some 2) 20 ''a''
       = ([(JStr ''u'', Some ())],
          Inr (JDict [(''status'', JStr ''success''),
                      (''data'', JDict [(''value'', JList [JInt 1, JInt 2]), (''@odata.count'', JInt 2)]),
                      (''total_retrieved'', JInt 2), (''pages_processed'', JInt 1)]))"
    by code_simp
  have od: "onedrive_paged_request single_page_client ''u'' () 2 20 ''a''
       = ([(JStr ''u'', Some ())],
          Inr (JDict [(''status'', JStr ''success''), (''data'', JList [JInt 1, JInt 2]),
                      (''total_retrieved'', JInt 2), (''pages_processed'', JInt 1)]))"
    by code_simp
  have hyps: "''u'' \<noteq> [] \<and> (0::int) < 20
      \<and> single_page_client 1 (JStr ''u'', Some ()) = json_page [(''value'', JList [JInt 1, JInt 2, JInt 3])]
      \<and> \<not> truthy (py_get [(''value'', JList [JInt 1, JInt 2, JInt 3])] ''@odata.nextLink'' JNull)
      \<and> below_cap (Some 2) [] \<and> (0::int) < 2"
    by (simp add: single_page_client_def py_get_def below_cap_def)
  have items: "single_page_items (Some 2) [(''value'', JList [JInt 1, JInt 2, JInt 3])] = [JInt 1, JInt 2]"
    by (simp add: single_page_items_def py_get_def)
  from C4_single_page [where url="''u''" and P=20 and client=single_page_client and q="()"
      and r="\<lparr>status_code = 200, body_text = [], json_body = Inr (JDict [(''value'', JList [JInt 1, JInt 2, JInt 3])]), http_error_msg = []\<rparr>"
      and d="[(''value'', JList [JInt 1, JInt 2, JInt 3])]" and m="Some 2" and a="''a''" and N=2]
    hyps
  have "\<exists>result. sp_paged_request single_page_client ''u'' () (Some 2) 20 ''a''
          = ([(JStr ''u'', Some ())], Inr result)
        \<and> dict_lookup result ''status'' = Some (JStr ''success'')
        \<and> dict_lookup result ''pages_processed'' = Some (JInt 1)
        \<and> dict_lookup result ''total_retrieved'' = Some (JInt 2)"
    unfolding items by (auto simp: json_page_def)
  with sp od hyps show ?thesis by blast
qed

subsection \<open>C5: a value that is not a list ends the loop without error\<close>

lemma non_list_value_outcome:
  assumes "truthy cur" and "int pc < P"
    and "client (Suc pc) (cur, if Suc pc = 1 \<and> cur = JStr url then Some q else None) = Inr r"
    and "json_body r = Inr (JDict d)" and "map_of d ''value'' = Some v" and "\<not> is_list v"
  shows "(below_cap m all_items \<longrightarrow>
            sp_result a (sp_paged_loop client url q m P cur all_items pc calls)
              = (calls @ [(cur, if Suc pc = 1 \<and> cur = JStr url then Some q else None)],
                 Inr (sp_success all_items (Suc pc))))
       \<and> (int (length all_items) < N \<and> is_str cur \<longrightarrow>
            onedrive_result a (onedrive_paged_loop client url q N P cur all_items pc calls)
              = (calls @ [(cur, if Suc pc = 1 \<and> cur = JStr url then Some q else None)],
                 Inr (onedrive_success all_items (Suc pc))))"
proof -
  from assms(5,6) have nl: "\<not> is_list (py_get d ''value'' (JList []))"
    by (simp add: py_get_def)
  show ?thesis
    using sp_loop_not_list [of cur m all_items pc P client url q r d calls]
      onedrive_loop_not_list [of cur all_items N pc P client url q r d calls]
      assms(1-4) nl
    by simp
qed

text \<open>
  C5: in any round of the loop (any values of \<^verbatim>\<open>current_url\<close>, \<^verbatim>\<open>all_items\<close>,
  \<^verbatim>\<open>page_count\<close> for which the loop condition holds), if the response to the call of
  that round is a JSON object whose \<^verbatim>\<open>value\<close> is present and is not a list, both helpers
  make no further call and return no error but a dictionary with \<^verbatim>\<open>status\<close> equal to
  \<^verbatim>\<open>success\<close> whose \<^verbatim>\<open>data\<close> are exactly \<^verbatim>\<open>all_items\<close>, the items accumulated from the
  previous pages, with \<^verbatim>\<open>total_retrieved\<close> their number and this round counted in
  \<^verbatim>\<open>pages_processed\<close>. (In the OneDrive helper the call is made when the cursor is a
  string.)
\<close>

theorem C5_non_list_value:
  assumes "truthy cur" and "int pc < P"
    and "client (Suc pc) (cur, if Suc pc = 1 \<and> cur = JStr url then Some q else None) = Inr r"
    and "json_body r = Inr (JDict d)" and "map_of d ''value'' = Some v" and "\<not> is_list v"
  shows "(below_cap m all_items \<longrightarrow>
           (\<exists>result. sp_result a (sp_paged_loop client url q m P cur all_items pc calls)
                = (calls @ [(cur, if Suc pc = 1 \<and> cur = JStr url then Some q else None)],
                   Inr result)
              \<and> dict_lookup result ''status'' = Some (JStr ''success'')
              \<and> dict_lookup result ''data''
                  = Some (JDict [(''value'', JList all_items),
                                 (''@odata.count'', JInt (int (length all_items)))])
              \<and> dict_lookup result ''total_retrieved'' = Some (JInt (int (length all_items)))
              \<and> dict_lookup result ''pages_processed'' = Some (JInt (int (Suc pc)))))
       \<and> (int (length all_items) < N \<and> is_str cur \<longrightarrow>
           (\<exists>result. onedrive_result a (onedrive_paged_loop client url q N P cur all_items pc calls)
                = (calls @ [(cur, if Suc pc = 1 \<and> cur = JStr url then Some q else None)],
                   Inr result)
              \<and> dict_lookup result ''status'' = Some (JStr ''success'')
              \<and> dict_lookup result ''data'' = Some (JList all_items)
              \<and> dict_lookup result ''total_retrieved'' = Some (JInt (int (length all_items)))
              \<and> dict_lookup result ''pages_processed'' = Some (JInt (int (Suc pc)))))"
  using non_list_value_outcome [where cur=cur and pc=pc and P=P and client=client and url=url
      and q=q and r=r and d=d and v=v and m=m and all_items=all_items and a=a and calls=calls
      and N=N] assms
  by (simp add: sp_success_def onedrive_success_def)

theorem C5_non_list_value_witness:
  "truthy (JStr ''next'') \<and> int 1 < 20
   \<and> bad_second_page_client (Suc 1) (JStr ''next'', None)
       = json_page [(''value'', JStr ''oops''), (''@odata.nextLink'', JStr ''more'')]
   \<and> map_of [(''value'', JStr ''oops''), (''@odata.nextLink'', JStr ''more'')] ''value'' = Some (JStr ''oops'')
   \<and> \<not> is_list (JStr ''oops'') \<and> below_cap None [JInt 1]
   \<and> (\<exists>result. sp_result ''a'' (sp_paged_loop bad_second_page_client ''u'' () None 20 (JStr ''next'')
                    [JInt 1] 1 [(JStr ''u'', Some ())])
          = ([(JStr ''u'', Some ()), (JStr ''next'', None)], Inr result)
        \<and> dict_lookup result ''status'' = Some (JStr ''success'')
        \<and> dict_lookup result ''total_retrieved'' = Some (JInt 1)
        \<and> dict_lookup result ''pages_processed'' = Some (JInt 2))
   \<and> sp_paged_request bad_second_page_client ''u'' () None 20 ''a''
       = ([(JStr ''u'', Some ()), (JStr ''next'', None)],
          Inr (JDict [(''status'', JStr ''success''),
                      (''data'', JDict [(''value'', JList [JInt 1]), (''@odata.count'', JInt 1)]),
                      (''total_retrieved'', JInt 1), (''pages_processed'', JInt 2)]))
   \<and> onedrive_paged_request bad_second_page_client ''u'' () 5 20 ''a''
       = ([(JStr ''u'', Some ()), (JStr ''next'', None)],
          Inr (JDict [(''status'', JStr ''success''), (''data'', JList [JInt 1]),
                      (''total_retrieved'', JInt 1), (''pages_processed'', JInt 2)]))"
proof -
  have sp: "sp_paged_request bad_second_page_client ''u'' () None 20 ''a''
       = ([(JStr ''u'', Some ()), (JStr ''next'', None)],
          Inr (JDict [(''status'', JStr ''success''),
                      (''data'', JDict [(''value'', JList [JInt 1]), (''@odata.count'', JInt 1)]),
                      (''total_retrieved'', JInt 1), (''pages_processed'', JInt 2)]))"
    by code_simp
  have od: "onedrive_paged_request bad_second_page_client ''u'' () 5 20 ''a''
       = ([(JStr ''u'', Some ()), (JStr ''next'', None)],
          Inr (JDict [(''status'', JStr ''success''), (''data'', JList [JInt 1]),
                      (''total_retrieved'', JInt 1), (''pages_processed'', JInt 2)]))"
    by code_simp
  have hyps: "truthy (JStr ''next'') \<and> int 1 < 20
      \<and> bad_second_page_client (Suc 1) (JStr ''next'', None)
          = json_page [(''value'', JStr ''oops''), (''@odata.nextLink'', JStr ''more'')]
      \<and> map_of [(''value'', JStr ''oops''), (''@odata.nextLink'', JStr ''more'')] ''value'' = Some (JStr ''oops'')
      \<and> \<not> is_list (JStr ''oops'') \<and> below_cap None [JInt 1]"
    by (simp add: bad_second_page_client_def below_cap_def)
  from C5_non_list_value [where cur="JStr ''next''" and pc=1 and P=20
      and client=bad_second_page_client and url="''u''" and q="()"
      and r="\<lparr>status_code = 200, body_text = [], json_body = Inr (JDict [(''value'', JStr ''oops''), (''@odata.nextLink'', JStr ''more'')]), http_error_msg = []\<rparr>"
      and d="[(''value'', JStr ''oops''), (''@odata.nextLink'', JStr ''more'')]"
      and v="JStr ''oops''" and m=None and all_items="[JInt 1]" and a="''a''"
      and calls="[(JStr ''u'', Some ())]" and N=5] hyps
  have "\<exists>result. sp_result ''a'' (sp_paged_loop bad_second_page_client ''u'' () None 20 (JStr ''next'')
                    [JInt 1] 1 [(JStr ''u'', Some ())])
          = ([(JStr ''u'', Some ()), (JStr ''next'', None)], Inr result)
        \<and> dict_lookup result ''status'' = Some (JStr ''success'')
        \<and> dict_lookup result ''total_retrieved'' = Some (JInt 1)
        \<and> dict_lookup result ''pages_processed'' = Some (JInt 2)"
    by (auto simp: json_page_def)
  with sp od hyps show ?thesis by blast
qed

subsection \<open>C6: a response without value is an empty page\<close>

text \<open>
  C6 (as stated, refuted): a response body with no \<^verbatim>\<open>value\<close> field would stop the loop
  even when it carries a cursor. The first response below has no \<^verbatim>\<open>value\<close> and the
  cursor \<^verbatim>\<open>next\<close>; both helpers go on to request \<^verbatim>\<open>next\<close> and return the item of the
  second page: \<^verbatim>\<open>response_data.get('value', [])\<close> reads an absent field as the empty list.
\<close>

theorem C6_missing_value_counterexample:
  "no_value_client 1 (JStr ''u'', Some ()) = json_page [(''@odata.nextLink'', JStr ''next'')]
   \<and> map_of [(''@odata.nextLink'', JStr ''next'')] ''value'' = None
   \<and> sp_paged_request no_value_client ''u'' () None 20 ''a''
       = ([(JStr ''u'', Some ()), (JStr ''next'', None)], Inr (sp_success [JInt 7] 2))
   \<and> onedrive_paged_request no_value_client ''u'' () 10 20 ''a''
       = ([(JStr ''u'', Some ()), (JStr ''next'', None)], Inr (onedrive_success [JInt 7] 2))"
proof -
  have sp: "sp_paged_request no_value_client ''u'' () None 20 ''a''
       = ([(JStr ''u'', Some ()), (JStr ''next'', None)], Inr (sp_success [JInt 7] 2))"
    by code_simp
  have od: "onedrive_paged_request no_value_client ''u'' () 10 20 ''a''
       = ([(JStr ''u'', Some ()), (JStr ''next'', None)], Inr (onedrive_success [JInt 7] 2))"
    by code_simp
  from sp od show ?thesis by (simp add: no_value_client_def)
qed

text \<open>
  C6 (amended): a response body with no \<^verbatim>\<open>value\<close> field is treated as an empty page. In
  any round of the loop, no item is added; the helper stops, with a success result of the
  items accumulated so far, when the response carries no cursor or the page cap is
  reached; and when the response carries a cursor and the page cap is not reached, the
  next call is made, to that cursor and without parameters.
\<close>

theorem C6_missing_value_is_empty_page:
  assumes "truthy cur" and "int pc < P"
    and "client (Suc pc) (cur, if Suc pc = 1 \<and> cur = JStr url then Some q else None) = Inr r"
    and "json_body r = Inr (JDict d)" and "map_of d ''value'' = None"
  shows "(below_cap m all_items \<longrightarrow>
           (\<not> truthy (py_get d ''@odata.nextLink'' JNull) \<or> P \<le> int (Suc pc) \<longrightarrow>
              sp_result a (sp_paged_loop client url q m P cur all_items pc calls)
                = (calls @ [(cur, if Suc pc = 1 \<and> cur = JStr url then Some q else None)],
                   Inr (sp_success all_items (Suc pc))))
           \<and> (truthy (py_get d ''@odata.nextLink'' JNull) \<and> int (Suc pc) < P \<longrightarrow>
                prefix (calls @ [(cur, if Suc pc = 1 \<and> cur = JStr url then Some q else None),
                                 (py_get d ''@odata.nextLink'' JNull, None)])
                  (fst (sp_result a (sp_paged_loop client url q m P cur all_items pc calls)))))
       \<and> (int (length all_items) < N \<and> is_str cur \<longrightarrow>
           (\<not> truthy (py_get d ''@odata.nextLink'' JNull) \<or> P \<le> int (Suc pc) \<longrightarrow>
              onedrive_result a (onedrive_paged_loop client url q N P cur all_items pc calls)
                = (calls @ [(cur, if Suc pc = 1 \<and> cur = JStr url then Some q else None)],
                   Inr (onedrive_success all_items (Suc pc))))
           \<and> (truthy (py_get d ''@odata.nextLink'' JNull)
               \<and> is_str (py_get d ''@odata.nextLink'' JNull) \<and> int (Suc pc) < P \<longrightarrow>
                prefix (calls @ [(cur, if Suc pc = 1 \<and> cur = JStr url then Some q else None),
                                 (py_get d ''@odata.nextLink'' JNull, None)])
                  (fst (onedrive_result a (onedrive_paged_loop client url q N P cur all_items pc calls)))))"
proof -
  let ?call = "(cur, if Suc pc = 1 \<and> cur = JStr url then Some q else None)"
  let ?next = "py_get d ''@odata.nextLink'' JNull"
  from assms(5) have empty: "py_get d ''value'' (JList []) = JList []"
    by (simp add: py_get_def)
  have sp: "sp_paged_loop client url q m P cur all_items pc calls
      = (if \<not> truthy ?next then (calls @ [?call], Inr (all_items, Suc pc))
         else sp_paged_loop client url q m P ?next all_items (Suc pc) (calls @ [?call]))"
    if "below_cap m all_items"
    using sp_loop_page [of cur m all_items pc P client url q r d "[]" calls]
      assms(1-4) empty that by simp
  have od: "onedrive_paged_loop client url q N P cur all_items pc calls
      = (if \<not> truthy ?next then (calls @ [?call], Inr (all_items, Suc pc))
         else onedrive_paged_loop client url q N P ?next all_items (Suc pc) (calls @ [?call]))"
    if "int (length all_items) < N" "is_str cur"
    using onedrive_loop_page [of cur all_items N pc P client url q r d "[]" calls]
      assms(1-4) empty that by simp
  have sp_stop: "sp_result a (sp_paged_loop client url q m P cur all_items pc calls)
      = (calls @ [?call], Inr (sp_success all_items (Suc pc)))"
    if "below_cap m all_items" "\<not> truthy ?next \<or> P \<le> int (Suc pc)"
    using sp [OF that(1)] that(2)
      sp_loop_exit [of ?next m all_items "Suc pc" P client url q "calls @ [?call]"]
    by (cases "truthy ?next") auto
  have sp_go: "prefix (calls @ [?call, (?next, None)])
      (fst (sp_result a (sp_paged_loop client url q m P cur all_items pc calls)))"
    if "below_cap m all_items" "truthy ?next" "int (Suc pc) < P"
    using sp [OF that(1)] that
      sp_loop_first_call [of ?next m all_items "Suc pc" P "calls @ [?call]" url q client]
    by simp
  have od_stop: "onedrive_result a (onedrive_paged_loop client url q N P cur all_items pc calls)
      = (calls @ [?call], Inr (onedrive_success all_items (Suc pc)))"
    if "int (length all_items) < N" "is_str cur" "\<not> truthy ?next \<or> P \<le> int (Suc pc)"
    using od [OF that(1,2)] that(3)
      onedrive_loop_exit [of ?next all_items N "Suc pc" P client url q "calls @ [?call]"]
    by (cases "truthy ?next") auto
  have od_go: "prefix (calls @ [?call, (?next, None)])
      (fst (onedrive_result a (onedrive_paged_loop client url q N P cur all_items pc calls)))"
    if "int (length all_items) < N" "is_str cur" "truthy ?next" "is_str ?next" "int (Suc pc) < P"
    using od [OF that(1,2)] that
      onedrive_loop_first_call [of ?next all_items N "Suc pc" P "calls @ [?call]" url q client]
    by simp
  from sp_stop sp_go od_stop od_go show ?thesis by blast
qed

theorem C6_missing_value_is_empty_page_witness:
  "truthy (JStr ''u'') \<and> int 0 < 20
   \<and> no_value_client (Suc 0) (JStr ''u'', Some ()) = json_page [(''@odata.nextLink'', JStr ''next'')]
   \<and> map_of [(''@odata.nextLink'', JStr ''next'')] ''value'' = None
   \<and> below_cap None [] \<and> truthy (py_get [(''@odata.nextLink'', JStr ''next'')] ''@odata.nextLink'' JNull)
   \<and> prefix [(JStr ''u'', Some ()), (JStr ''next'', None)]
        (fst (sp_paged_request no_value_client ''u'' () None 20 ''a''))
   \<and> prefix [(JStr ''u'', Some ()), (JStr ''next'', None)]
        (fst (onedrive_paged_request no_value_client ''u'' () 10 20 ''a''))"
  using C6_missing_value_is_empty_page [where cur="JStr ''u''" and pc=0 and P=20
      and client=no_value_client and url="''u''" and q="()"
      and r="\<lparr>status_code = 200, body_text = [], json_body = Inr (JDict [(''@odata.nextLink'', JStr ''next'')]), http_error_msg = []\<rparr>"
      and d="[(''@odata.nextLink'', JStr ''next'')]" and m=None and all_items="[]"
      and a="''a''" and calls="[]" and N=10]
  by (simp add: no_value_client_def json_page_def below_cap_def py_get_def
      sp_paged_request_def onedrive_paged_request_def)

subsection \<open>C7: the initial parameters go with the first request only\<close>

text \<open>
  C7: for every client and all caps, the calls that \<^verbatim>\<open>_sp_paged_request\<close> and
  \<^verbatim>\<open>_onedrive_paged_request\<close> make are such that the first call, when there is one, is the
  start URL with the initial query parameters; every later call passes \<^verbatim>\<open>params=None\<close>;
  and the URL of every later call is, unchanged, the \<^verbatim>\<open>@odata.nextLink\<close> value of the
  response to the call before it.
\<close>

theorem C7_params_only_on_first_request:
  "(fst (sp_paged_request client url q m P a) = []
      \<or> hd (fst (sp_paged_request client url q m P a)) = (JStr url, Some q))
   \<and> (\<forall>c \<in> set (tl (fst (sp_paged_request client url q m P a))). snd c = None)
   \<and> cursor_chain client 1 (fst (sp_paged_request client url q m P a))
   \<and> (fst (onedrive_paged_request client url q N P a) = []
      \<or> hd (fst (onedrive_paged_request client url q N P a)) = (JStr url, Some q))
   \<and> (\<forall>c \<in> set (tl (fst (onedrive_paged_request client url q N P a))). snd c = None)
   \<and> cursor_chain client 1 (fst (onedrive_paged_request client url q N P a))"
proof -
  obtain calls res where sp: "sp_paged_loop client url q m P (JStr url) [] 0 [] = (calls, res)"
    by (cases "sp_paged_loop client url q m P (JStr url) [] 0 []")
  from sp_loop_calls_chain [OF sp]
  have sp_first: "calls = [] \<or> hd calls = (JStr url, Some q)"
    and sp_chain: "cursor_chain client 1 calls"
    by auto
  have sp_calls: "fst (sp_paged_request client url q m P a) = calls"
    by (simp add: sp_paged_request_def sp)
  obtain calls' res' where od: "onedrive_paged_loop client url q N P (JStr url) [] 0 [] = (calls', res')"
    by (cases "onedrive_paged_loop client url q N P (JStr url) [] 0 []")
  from onedrive_loop_calls_chain [OF od]
  have od_first: "calls' = [] \<or> hd calls' = (JStr url, Some q)"
    and od_chain: "cursor_chain client 1 calls'"
    by auto
  have od_calls: "fst (onedrive_paged_request client url q N P a) = calls'"
    by (simp add: onedrive_paged_request_def od)
  from sp_first sp_chain od_first od_chain cursor_chain_params [OF sp_chain]
    cursor_chain_params [OF od_chain]
  show ?thesis unfolding sp_calls od_calls by blast
qed

theorem C7_params_only_on_first_request_witness:
  "fst (sp_paged_request endless_client ''u'' () None 3 ''a'')
     = [(JStr ''u'', Some ()), (JStr ''next'', None), (JStr ''next'', None)]
   \<and> hd (fst (sp_paged_request endless_client ''u'' () None 3 ''a'')) = (JStr ''u'', Some ())
   \<and> map snd (tl (fst (sp_paged_request endless_client ''u'' () None 3 ''a''))) = [None, None]
   \<and> cursor_chain endless_client 1 (fst (sp_paged_request endless_client ''u'' () None 3 ''a''))
   \<and> fst (onedrive_paged_request endless_client ''u'' () 10 3 ''a'')
     = [(JStr ''u'', Some ()), (JStr ''next'', None), (JStr ''next'', None)]
   \<and> cursor_chain endless_client 1 (fst (onedrive_paged_request endless_client ''u'' () 10 3 ''a''))"
proof -
  have sp: "fst (sp_paged_request endless_client ''u'' () None 3 ''a'')
     = [(JStr ''u'', Some ()), (JStr ''next'', None), (JStr ''next'', None)]"
    by code_simp
  have od: "fst (onedrive_paged_request endless_client ''u'' () 10 3 ''a'')
     = [(JStr ''u'', Some ()), (JStr ''next'', None), (JStr ''next'', None)]"
    by code_simp
  from C7_params_only_on_first_request [of endless_client "''u''" "()" None 3 "''a''" 10] sp od
  show ?thesis by simp
qed

subsection \<open>C8: a failing request aborts the fetch, but the upstream status can be lost\<close>

text \<open>
  What holds of \<^verbatim>\<open>_sp_paged_request\<close> over the authenticated client: in any round of the
  loop, if the call of that round raises a transport error (an exception of \<^verbatim>\<open>requests\<close>
  other than HTTPError) or an HTTPError with its response, no further call is made (the
  failed call is the last one, made once), and the helper returns a dictionary with
  status \<^verbatim>\<open>error\<close>, the HTTP status of upstream (500 for a transport error), the error
  message of upstream as details, and no \<^verbatim>\<open>data\<close> or \<^verbatim>\<open>total_retrieved\<close> entry. The
  client raises HTTPError only for an error body that is not JSON, or is a JSON object
  whose \<^verbatim>\<open>error\<close> member is absent or an object.
\<close>

lemma sp_request_error_aborts:
  assumes "truthy cur" and "below_cap m all_items" and "int pc < P"
    and "authenticated_get py_repr credential session dt scope (Suc pc)
           (cur, if Suc pc = 1 \<and> cur = JStr url then Some q else None) = Inl e"
    and "(\<exists>cls msg. e = RequestException cls msg) \<or> (\<exists>msg r. e = HTTPError msg (Some r))"
  shows "\<exists>result. sp_result a
           (sp_paged_loop (authenticated_get py_repr credential session dt scope) url q m P
              cur all_items pc calls)
         = (calls @ [(cur, if Suc pc = 1 \<and> cur = JStr url then Some q else None)], Inr result)
       \<and> dict_lookup result ''status'' = Some (JStr ''error'')
       \<and> dict_lookup result ''http_status'' = Some (JInt (upstream_status e))
       \<and> dict_lookup result ''details'' = Some (upstream_message e)
       \<and> dict_lookup result ''data'' = None
       \<and> dict_lookup result ''total_retrieved'' = None"
proof -
  let ?call = "(cur, if Suc pc = 1 \<and> cur = JStr url then Some q else None)"
  let ?client = "authenticated_get py_repr credential session dt scope"
  have loop: "sp_paged_loop ?client url q m P cur all_items pc calls = (calls @ [?call], Inl e)"
    using sp_loop_raise [of cur m all_items pc P ?client url q e calls] assms(1-4) by simp
  then have res: "sp_result a (sp_paged_loop ?client url q m P cur all_items pc calls)
      = (calls @ [?call], handle_graph_api_error e a)"
    by (simp add: sp_result_def)
  have "\<exists>code. handle_graph_api_error e a
      = Inr (error_dict a (''Error ejecutando '' @ a @ '': '' @ exn_name e)
               (upstream_status e) (upstream_message e) code)"
  proof -
    from assms(5) consider (transport) cls msg where "e = RequestException cls msg"
      | (http) msg r where "e = HTTPError msg (Some r)" by blast
    then show ?thesis
    proof cases
      case transport
      then show ?thesis
        by (auto simp: handle_graph_api_error_transport upstream_status_def upstream_message_def)
    next
      case http
      from assms(4) have "(\<exists>decode_msg. json_body r = Inl decode_msg)
         \<or> (\<exists>error_data error_info. json_body r = Inr (JDict error_data)
               \<and> py_get error_data ''error'' (JDict []) = JDict error_info)"
        unfolding http by (rule authenticated_get_HTTPError)
      from handle_graph_api_error_http [OF this, of msg a] http show ?thesis
        by (simp add: upstream_status_def)
    qed
  qed
  then obtain code where "handle_graph_api_error e a
      = Inr (error_dict a (''Error ejecutando '' @ a @ '': '' @ exn_name e)
               (upstream_status e) (upstream_message e) code)" by blast
  with res show ?thesis
    by (simp add: error_dict_def)
qed

text \<open>
  C8 (defect of the code): a non-2xx answer whose JSON body has an \<^verbatim>\<open>error\<close> member that
  is not an object. The session answers the second request with status 401 and the body
  \<^verbatim>\<open>{"error": "invalid_grant"}\<close>. The authenticated client raises AttributeError in place
  of the HTTPError, and \<^verbatim>\<open>_sp_paged_request\<close>, after these two requests, returns an error
  dictionary whose \<^verbatim>\<open>http_status\<close> is 500, not 401, and whose details are the text of the
  AttributeError, not the upstream message: upstream status and message are lost. Given
  the HTTPError of that answer directly, \<^verbatim>\<open>_handle_graph_api_error\<close> raises the same
  AttributeError and returns no dictionary at all.
\<close>

theorem C8_upstream_status_lost:
  "status_code invalid_grant_response = 401
   \<and> json_body invalid_grant_response = Inr (JDict [(''error'', JStr ''invalid_grant'')])
   \<and> authenticated_get (\<lambda>scope. []) (\<lambda>k scope. Inr ''tok'') invalid_grant_session 90 [''scope'']
        2 (JStr ''next'', None)
       = Inl (PyException ''AttributeError''
                (CHR 0x27 # ''str'' @ CHR 0x27 # '' object has no attribute '' @ CHR 0x27 # ''get''
                   @ [CHR 0x27]))
   \<and> sp_paged_request
        (authenticated_get (\<lambda>scope. []) (\<lambda>k scope. Inr ''tok'') invalid_grant_session 90 [''scope''])
        ''u'' () None 20 ''a''
       = ([(JStr ''u'', Some ()), (JStr ''next'', None)],
          Inr (JDict [(''status'', JStr ''error''), (''action'', JStr ''a''),
                      (''message'', JStr ''Error ejecutando a: AttributeError''),
                      (''http_status'', JInt 500),
                      (''details'',
                         JStr (CHR 0x27 # ''str'' @ CHR 0x27 # '' object has no attribute ''
                                 @ CHR 0x27 # ''get'' @ [CHR 0x27])),
                      (''graph_error_code'', JNull)]))
   \<and> handle_graph_api_error (HTTPError ''401 Client Error'' (Some invalid_grant_response)) ''a''
       = Inl (PyException ''AttributeError''
                (CHR 0x27 # ''str'' @ CHR 0x27 # '' object has no attribute '' @ CHR 0x27 # ''get''
                   @ [CHR 0x27]))"
  by code_simp

subsection \<open>C9: the dispatch endpoint normalises the HTTP status\<close>

text \<open>
  C9: a result dictionary with status \<^verbatim>\<open>error\<close> is never served with a 2xx status, and
  an \<^verbatim>\<open>http_status\<close> of 200 to 299 in it is coerced to 500; a result that is not an
  error, whose \<^verbatim>\<open>http_status\<close> is absent or a number (as in every handler of the
  repository), is always served with a 2xx status, and an \<^verbatim>\<open>http_status\<close> outside 200
  to 299 is coerced to 200.
\<close>

theorem C9_status_normalised:
  "(py_get result ''status'' JNull = JStr ''error'' \<longrightarrow>
      \<not> is_2xx (resp_status (dict_result_response action_name result))
      \<and> (\<forall>c. py_get result ''http_status'' (JInt 500) = JInt c \<and> is_2xx c \<longrightarrow>
            resp_status (dict_result_response action_name result) = 500))
   \<and> (py_get result ''status'' JNull \<noteq> JStr ''error'' \<longrightarrow>
      (\<forall>c. int_operand (py_get result ''http_status'' (JInt 200)) = Some c \<longrightarrow>
         is_2xx (resp_status (dict_result_response action_name result))
         \<and> (\<not> is_2xx c \<longrightarrow> resp_status (dict_result_response action_name result) = 200)
         \<and> (is_2xx c \<longrightarrow> resp_status (dict_result_response action_name result) = c)))"
  by (auto simp: dict_result_response_def is_2xx_def create_error_response_def
      unhandled_exception_response_def Let_def split: option.splits sum.splits if_splits)

theorem C9_status_normalised_witness:
  "py_get [(''status'', JStr ''error''), (''message'', JStr ''m''), (''http_status'', JInt 204)]
      ''status'' JNull = JStr ''error''
   \<and> py_get [(''status'', JStr ''error''), (''message'', JStr ''m''), (''http_status'', JInt 204)]
      ''http_status'' (JInt 500) = JInt 204 \<and> is_2xx 204
   \<and> resp_status (dict_result_response ''a''
        [(''status'', JStr ''error''), (''message'', JStr ''m''), (''http_status'', JInt 204)]) = 500
   \<and> py_get [(''status'', JStr ''success''), (''http_status'', JInt 404)] ''status'' JNull
       \<noteq> JStr ''error''
   \<and> int_operand (py_get [(''status'', JStr ''success''), (''http_status'', JInt 404)]
        ''http_status'' (JInt 200)) = Some 404 \<and> \<not> is_2xx 404
   \<and> resp_status (dict_result_response ''a''
        [(''status'', JStr ''success''), (''http_status'', JInt 404)]) = 200"
  using C9_status_normalised [of "[(''status'', JStr ''error''), (''message'', JStr ''m''), (''http_status'', JInt 204)]" "''a''"]
    C9_status_normalised [of "[(''status'', JStr ''success''), (''http_status'', JInt 404)]" "''a''"]
  by (simp add: py_get_def is_2xx_def)

subsection \<open>C10: no request without a bearer token\<close>



end
